theory Spec2Isabelle
  imports Complex_Main "HOL-Library.Char_ord" "HOL-Library.List_Lexorder"
    "HOL-Library.Multiset"
begin

section \<open>Values and exceptions\<close>

text \<open>
  The server (\<^verbatim>\<open>server.py\<close>) handles request bodies as whatever \<^verbatim>\<open>json.loads\<close>
  returns: \<^verbatim>\<open>None\<close>, a bool, an int, a float, a str, a list or a dict. A dict is kept as
  the list of its items; \<open>map_of\<close> looks a key up. Floats are kept as rationals: the
  program only ever tests a number for being zero.
\<close>

datatype json =
    JNull
  | JBool bool
  | JInt int
  | JFloat rat
  | JStr string
  | JArr "json list"
  | JObj "(string \<times> json) list"

text \<open>
  The exceptions that can leave a function of the program. \<open>RuntimeError\<close> is the one
  \<^verbatim>\<open>llm_chat\<close> raises itself and the only one a handler catches; \<open>IntegrityError\<close> is a
  violated constraint of the schema, \<open>BindError\<close> a value SQLite cannot take as a parameter.
\<close>

datatype exn =
    AttributeError
  | TypeError
  | KeyError
  | IndexError
  | ValueError
  | IntegrityError
  | BindError
  | OverflowError
  | RuntimeError string

text \<open>
  Three things the program leaves to its runtime and never defines itself are parameters of
  the model: Python's \<^verbatim>\<open>int()\<close> on a str (\<open>None\<close> where it raises \<^verbatim>\<open>ValueError\<close>), Python's
  \<^verbatim>\<open>str()\<close> of a value that is not a str (what an f-string inserts), and the text SQLite
  stores when a number or a bool is bound to a \<^verbatim>\<open>TEXT\<close> column.
\<close>

record runtime =
  py_int :: "string \<Rightarrow> int option"
  py_str :: "json \<Rightarrow> string"
  sqlite_text :: "json \<Rightarrow> exn + string"

subsection \<open>Python's operations on these values\<close>

text \<open>Truthiness, as \<^verbatim>\<open>not x\<close> and \<^verbatim>\<open>x or y\<close> test it.\<close>

fun py_truthy :: "json \<Rightarrow> bool" where
  "py_truthy JNull = False"
| "py_truthy (JBool b) = b"
| "py_truthy (JInt n) = (n \<noteq> 0)"
| "py_truthy (JFloat q) = (q \<noteq> 0)"
| "py_truthy (JStr s) = (s \<noteq> [])"
| "py_truthy (JArr xs) = (xs \<noteq> [])"
| "py_truthy (JObj kvs) = (kvs \<noteq> [])"

definition py_or :: "json \<Rightarrow> json \<Rightarrow> json" where
  "py_or a b = (if py_truthy a then a else b)"

text \<open>\<^verbatim>\<open>d.get(k, dflt)\<close>: only a dict has the method.\<close>

definition dict_get :: "json \<Rightarrow> string \<Rightarrow> json \<Rightarrow> exn + json" where
  "dict_get d k dflt =
     (case d of
        JObj kvs \<Rightarrow> Inr (case map_of kvs k of None \<Rightarrow> dflt | Some v \<Rightarrow> v)
      | _ \<Rightarrow> Inl AttributeError)"

text \<open>An f-string inserts a str as it is and \<^verbatim>\<open>str()\<close> of anything else.\<close>

definition fmt :: "runtime \<Rightarrow> json \<Rightarrow> string" where
  "fmt rt v = (case v of JStr s \<Rightarrow> s | _ \<Rightarrow> py_str rt v)"

definition ROLES :: "string list" where
  "ROLES = [''user'', ''assistant'', ''system'']"

text \<open>
  \<^verbatim>\<open>role not in {"user", "assistant", "system"}\<close>: the set hashes \<^verbatim>\<open>role\<close> first, and a list
  or a dict has no hash; no other value than one of the three strings is equal to one.
\<close>

definition role_not_in :: "json \<Rightarrow> exn + bool" where
  "role_not_in v =
     (case v of
        JArr _ \<Rightarrow> Inl TypeError
      | JObj _ \<Rightarrow> Inl TypeError
      | JStr s \<Rightarrow> Inr (s \<notin> set ROLES)
      | _ \<Rightarrow> Inr True)"

text \<open>\<^verbatim>\<open>s.startswith(p)\<close>, \<^verbatim>\<open>s.endswith(p)\<close> and \<^verbatim>\<open>s.split("/")\<close>.\<close>

definition startswith :: "string \<Rightarrow> string \<Rightarrow> bool" where
  "startswith s p = (take (length p) s = p)"

definition endswith :: "string \<Rightarrow> string \<Rightarrow> bool" where
  "endswith s p = (length p \<le> length s \<and> drop (length s - length p) s = p)"

fun split_acc :: "string \<Rightarrow> string \<Rightarrow> string list" where
  "split_acc cur [] = [rev cur]"
| "split_acc cur (c # cs) =
     (if c = CHR ''/'' then rev cur # split_acc [] cs else split_acc (c # cur) cs)"

definition split_slash :: "string \<Rightarrow> string list" where
  "split_slash s = split_acc [] s"

text \<open>\<^verbatim>\<open>xs[i]\<close> on a list, for an index that is not negative.\<close>

definition index :: "'a list \<Rightarrow> nat \<Rightarrow> exn + 'a" where
  "index xs i = (if i < length xs then Inr (xs ! i) else Inl IndexError)"

text \<open>
  \<^verbatim>\<open>x[0]\<close> on any value: the first element of a list, the first character of a str, a
  missing key of a dict (the keys of a parsed object are strings), and a \<^verbatim>\<open>TypeError\<close>
  on what cannot be subscripted.
\<close>

definition subscript0 :: "json \<Rightarrow> exn + json" where
  "subscript0 v =
     (case v of
        JArr xs \<Rightarrow> index xs 0
      | JStr s \<Rightarrow> (case s of [] \<Rightarrow> Inl IndexError | c # _ \<Rightarrow> Inr (JStr [c]))
      | JObj _ \<Rightarrow> Inl KeyError
      | _ \<Rightarrow> Inl TypeError)"

text \<open>Sequencing: the first exception ends the computation.\<close>

definition and_then :: "exn + 'a \<Rightarrow> ('a \<Rightarrow> exn + 'b) \<Rightarrow> exn + 'b" where
  "and_then x f = (case x of Inl e \<Rightarrow> Inl e | Inr v \<Rightarrow> f v)"

section \<open>Storage layer\<close>

text \<open>
  The two tables of \<^verbatim>\<open>init_db\<close>, each a list of rows in insertion order. Timestamps are
  the ISO-8601 strings of \<^verbatim>\<open>now_iso\<close>, compared as SQLite compares text: byte by byte.
  Both tables are \<^verbatim>\<open>AUTOINCREMENT\<close>: SQLite keeps, per table, the largest row id it ever
  gave out (\<open>conv_seq\<close>, \<open>msg_seq\<close>). Row ids are unbounded integers here; SQLite's have
  64 bits.
\<close>

record conversation =
  conv_id :: int
  title :: string
  system_prompt :: string
  created_at :: string
  updated_at :: string

record message =
  msg_id :: int
  conversation_id :: int
  role :: string
  content :: string
  msg_created_at :: string

record store =
  conversations :: "conversation list"
  messages :: "message list"
  conv_seq :: int
  msg_seq :: int

definition init_db :: store where
  "init_db = \<lparr>conversations = [], messages = [], conv_seq = 0, msg_seq = 0\<rparr>"

text \<open>
  The clock: \<^verbatim>\<open>now_iso()\<close> is called once per statement that stores a timestamp, so an
  operation takes the readings of its calls, \<open>clock 0\<close> the first, \<open>clock 1\<close> the second.
\<close>

type_synonym clock = "nat \<Rightarrow> string"

text \<open>The row id of an insert: one more than the largest ever used in the table.\<close>

definition next_rowid :: "int \<Rightarrow> int list \<Rightarrow> int" where
  "next_rowid seq ids = fold max ids seq + 1"

definition create_conversation :: "clock \<Rightarrow> string \<Rightarrow> string \<Rightarrow> store \<Rightarrow> int \<times> store" where
  "create_conversation clock ttl sp s =
     (let timestamp = clock 0;
          i = next_rowid (conv_seq s) (map conv_id (conversations s))
      in (i, s\<lparr>conversations := conversations s @
                  [\<lparr>conv_id = i, title = ttl, system_prompt = sp,
                    created_at = timestamp, updated_at = timestamp\<rparr>],
                conv_seq := i\<rparr>))"

text \<open>
  \<^verbatim>\<open>LEFT JOIN ... GROUP BY c.id\<close> gives one row per conversation, \<^verbatim>\<open>COUNT(m.id)\<close> its
  number of messages; \<^verbatim>\<open>ORDER BY c.updated_at DESC\<close> sorts them. SQL leaves the order of
  rows with equal timestamps open; here, as in SQLite, they keep the order of the table.
\<close>

definition message_count :: "store \<Rightarrow> int \<Rightarrow> nat" where
  "message_count s cid = length (filter (\<lambda>m. conversation_id m = cid) (messages s))"

definition list_conversations :: "store \<Rightarrow> (conversation \<times> nat) list" where
  "list_conversations s =
     rev (sort_key (\<lambda>row. updated_at (fst row))
            (rev (map (\<lambda>c. (c, message_count s (conv_id c))) (conversations s))))"

definition get_conversation :: "int \<Rightarrow> store \<Rightarrow> conversation option" where
  "get_conversation cid s = find (\<lambda>c. conv_id c = cid) (conversations s)"

definition list_messages :: "int \<Rightarrow> store \<Rightarrow> message list" where
  "list_messages cid s =
     sort_key msg_id (filter (\<lambda>m. conversation_id m = cid) (messages s))"

text \<open>\<^verbatim>\<open>UPDATE conversations SET ... WHERE id = ?\<close>: no row, no change.\<close>

definition update_rows :: "int \<Rightarrow> (conversation \<Rightarrow> conversation) \<Rightarrow> store \<Rightarrow> store" where
  "update_rows cid f s =
     s\<lparr>conversations := map (\<lambda>c. if conv_id c = cid then f c else c) (conversations s)\<rparr>"

definition update_conversation ::
  "clock \<Rightarrow> int \<Rightarrow> string option \<Rightarrow> string option \<Rightarrow> store \<Rightarrow> store" where
  "update_conversation clock cid ttl sp s =
     update_rows cid
       (\<lambda>c. (let c1 = (case ttl of None \<Rightarrow> c | Some t \<Rightarrow> c\<lparr>title := t\<rparr>);
                 c2 = (case sp of None \<Rightarrow> c1 | Some p \<Rightarrow> c1\<lparr>system_prompt := p\<rparr>)
             in c2\<lparr>updated_at := clock 0\<rparr>)) s"

text \<open>
  One \<^verbatim>\<open>INSERT INTO messages\<close>. The schema checks the role (\<^verbatim>\<open>CHECK\<close>) and, with
  \<^verbatim>\<open>PRAGMA foreign_keys = ON\<close>, that the conversation exists.
\<close>

definition insert_message ::
  "int \<Rightarrow> string \<Rightarrow> string \<Rightarrow> string \<Rightarrow> store \<Rightarrow> exn + store" where
  "insert_message cid r c t s =
     (if r \<notin> set ROLES then Inl IntegrityError
      else if get_conversation cid s = None then Inl IntegrityError
      else (let i = next_rowid (msg_seq s) (map msg_id (messages s))
            in Inr (s\<lparr>messages := messages s @
                        [\<lparr>msg_id = i, conversation_id = cid, role = r, content = c,
                          msg_created_at = t\<rparr>],
                      msg_seq := i\<rparr>)))"

definition touch :: "int \<Rightarrow> string \<Rightarrow> store \<Rightarrow> store" where
  "touch cid t s = update_rows cid (\<lambda>c. c\<lparr>updated_at := t\<rparr>) s"

text \<open>
  \<^verbatim>\<open>with get_db() as db\<close> commits when its block ends and rolls back when it raises: an
  operation that fails returns the exception and no store.
\<close>

definition append_message :: "clock \<Rightarrow> int \<Rightarrow> string \<Rightarrow> string \<Rightarrow> store \<Rightarrow> exn + store" where
  "append_message clock cid r c s =
     (case insert_message cid r c (clock 0) s of
        Inl e \<Rightarrow> Inl e
      | Inr s1 \<Rightarrow> Inr (touch cid (clock 1) s1))"

fun insert_all :: "clock \<Rightarrow> nat \<Rightarrow> int \<Rightarrow> (string \<times> string) list \<Rightarrow> store \<Rightarrow> exn + store" where
  "insert_all clock k cid [] s = Inr s"
| "insert_all clock k cid (m # ms) s =
     (case insert_message cid (fst m) (snd m) (clock k) s of
        Inl e \<Rightarrow> Inl e
      | Inr s1 \<Rightarrow> insert_all clock (Suc k) cid ms s1)"

definition delete_messages :: "int \<Rightarrow> store \<Rightarrow> store" where
  "delete_messages cid s =
     s\<lparr>messages := filter (\<lambda>m. conversation_id m \<noteq> cid) (messages s)\<rparr>"

definition replace_messages ::
  "clock \<Rightarrow> int \<Rightarrow> (string \<times> string) list \<Rightarrow> store \<Rightarrow> exn + store" where
  "replace_messages clock cid ms s =
     (case insert_all clock 0 cid ms (delete_messages cid s) of
        Inl e \<Rightarrow> Inl e
      | Inr s1 \<Rightarrow> Inr (touch cid (clock (length ms)) s1))"

section \<open>Completion gateway\<close>

text \<open>
  The environment variables \<^verbatim>\<open>llm_chat\<close> reads, \<open>None\<close> for one that is not set, and the
  one request it may send. The network is a function from the request to what \<^verbatim>\<open>urllib\<close>
  does with it: \<^verbatim>\<open>Request\<close> refuses the URL with a \<^verbatim>\<open>ValueError\<close> and nothing is sent, or
  \<^verbatim>\<open>urlopen\<close> raises an \<^verbatim>\<open>HTTPError\<close> (status and body) or a \<^verbatim>\<open>URLError\<close> (its reason as
  text), or it gives a 2xx response, whose body \<^verbatim>\<open>json.loads\<close> parses (\<open>None\<close> where it
  raises).
\<close>

record env =
  LLM_API_KEY :: "string option"
  LLM_API_URL :: "string option"
  LLM_MODEL :: "string option"

record http_request =
  url :: string
  authorization :: string
  payload :: json
  timeout :: nat

datatype upstream =
    UnknownURLType
  | HTTPError int string
  | URLError string
  | Success "json option"

definition MOCK_PREFIX :: string where
  "MOCK_PREFIX =
     ''[mock backend reply] Set LLM_API_KEY to call a real model. Last user message: ''"

text \<open>The loop over \<^verbatim>\<open>reversed(messages)\<close>, given the reversed list.\<close>

fun last_user :: "json list \<Rightarrow> exn + json" where
  "last_user [] = Inr (JStr [])"
| "last_user (m # ms) =
     and_then (dict_get m ''role'' JNull) (\<lambda>r.
       if r = JStr ''user'' then dict_get m ''content'' (JStr []) else last_user ms)"

text \<open>Lines 169 to 177: the reply text of a parsed 2xx body.\<close>

definition reply_of :: "json \<Rightarrow> exn + json" where
  "reply_of data =
     and_then (dict_get data ''choices'' JNull) (\<lambda>c.
       let choices = py_or c (JArr []) in
       if \<not> py_truthy choices
       then Inl (RuntimeError ''LLM response did not include choices'')
       else
         and_then (subscript0 choices) (\<lambda>first.
         and_then (dict_get first ''message'' (JObj [])) (\<lambda>msg.
         and_then (dict_get msg ''content'' JNull) (\<lambda>content.
           if \<not> py_truthy content
           then Inl (RuntimeError ''LLM response did not include assistant content'')
           else Inr content))))"

text \<open>
  \<^verbatim>\<open>llm_chat\<close> returns its result, or the exception it raises, and the requests it sent.
\<close>

definition llm_chat ::
  "runtime \<Rightarrow> env \<Rightarrow> (http_request \<Rightarrow> upstream) \<Rightarrow> json list
     \<Rightarrow> (exn + json) \<times> http_request list" where
  "llm_chat rt ev net msgs =
     (let api_url = (case LLM_API_URL ev of
                       None \<Rightarrow> ''https://api.openai.com/v1/chat/completions''
                     | Some u \<Rightarrow> u);
          model = (case LLM_MODEL ev of None \<Rightarrow> ''gpt-4o-mini'' | Some m \<Rightarrow> m);
          mock = (and_then (last_user (rev msgs))
                    (\<lambda>lu. Inr (JStr (MOCK_PREFIX @ fmt rt lu))), [])
      in case LLM_API_KEY ev of
           None \<Rightarrow> mock
         | Some api_key \<Rightarrow>
             if api_key = [] then mock
             else
               (let request = \<lparr>url = api_url,
                               authorization = ''Bearer '' @ api_key,
                               payload = JObj [(''model'', JStr model),
                                               (''messages'', JArr msgs)],
                               timeout = 60\<rparr>
                in (case net request of
                      UnknownURLType \<Rightarrow> (Inl ValueError, [])
                    | HTTPError code detail \<Rightarrow>
                        (Inl (RuntimeError (''LLM request failed ('' @ py_str rt (JInt code)
                                             @ ''): '' @ detail)), [request])
                    | URLError reason \<Rightarrow>
                        (Inl (RuntimeError (''LLM connection failed: '' @ reason)), [request])
                    | Success None \<Rightarrow> (Inl ValueError, [request])
                    | Success (Some data) \<Rightarrow> (reply_of data, [request]))))"

section \<open>Request router\<close>

text \<open>
  A handler gets the path of the request URL (\<^verbatim>\<open>urlparse(self.path).path\<close>) and the body:
  none, one \<^verbatim>\<open>_read_json\<close> cannot parse, or the parsed value. It answers with
  \<^verbatim>\<open>_json_response\<close> (a status and a JSON value), hands the path to \<^verbatim>\<open>_serve_static\<close>, or
  calls \<^verbatim>\<open>send_error\<close>. An exception that no handler catches ends the request with no
  response; it is raised before or inside the one transaction of the request, so the
  store stays as it was.
\<close>

datatype raw_body = NoBody | BadBody | JsonBody json

datatype reply = Json nat json | Static string | SendError nat

definition read_json :: "raw_body \<Rightarrow> exn + json" where
  "read_json b =
     (case b of NoBody \<Rightarrow> Inr (JObj []) | BadBody \<Rightarrow> Inl ValueError | JsonBody j \<Rightarrow> Inr j)"

text \<open>The rows as \<^verbatim>\<open>dict(row)\<close> gives them to \<^verbatim>\<open>json.dumps\<close>.\<close>

definition conversation_fields :: "conversation \<Rightarrow> (string \<times> json) list" where
  "conversation_fields c =
     [(''id'', JInt (conv_id c)), (''title'', JStr (title c)),
      (''system_prompt'', JStr (system_prompt c)),
      (''created_at'', JStr (created_at c)), (''updated_at'', JStr (updated_at c))]"

definition conversation_json :: "conversation option \<Rightarrow> json" where
  "conversation_json r = (case r of None \<Rightarrow> JNull | Some c \<Rightarrow> JObj (conversation_fields c))"

definition summary_json :: "conversation \<times> nat \<Rightarrow> json" where
  "summary_json row =
     JObj (conversation_fields (fst row) @ [(''message_count'', JInt (int (snd row)))])"

definition message_json :: "message \<Rightarrow> json" where
  "message_json m =
     JObj [(''id'', JInt (msg_id m)), (''role'', JStr (role m)),
           (''content'', JStr (content m)), (''created_at'', JStr (msg_created_at m))]"

definition error_json :: "string \<Rightarrow> json" where
  "error_json msg = JObj [(''error'', JStr msg)]"

definition ok_json :: json where
  "ok_json = JObj [(''ok'', JBool True)]"

text \<open>
  A value bound to a \<^verbatim>\<open>TEXT NOT NULL\<close> column. The storage functions above have the
  types of their annotations (\<^verbatim>\<open>title: str\<close>, \<^verbatim>\<open>content: str\<close>); the router passes them
  request values unchecked, and \<^verbatim>\<open>db.execute\<close> raises on what it cannot store.
\<close>

definition bind_text :: "runtime \<Rightarrow> json \<Rightarrow> exn + string" where
  "bind_text rt v =
     (case v of
        JStr s \<Rightarrow> Inr s
      | JNull \<Rightarrow> Inl IntegrityError
      | JArr _ \<Rightarrow> Inl BindError
      | JObj _ \<Rightarrow> Inl BindError
      | _ \<Rightarrow> sqlite_text rt v)"

definition is_messages_path :: "string \<Rightarrow> bool" where
  "is_messages_path path =
     (startswith path ''/api/conversations/'' \<and> endswith path ''/messages'')"

text \<open>\<^verbatim>\<open>int(path.split("/")[3])\<close>, \<open>None\<close> where it raises.\<close>

definition path_id :: "runtime \<Rightarrow> string \<Rightarrow> int option" where
  "path_id rt path =
     (case index (split_slash path) 3 of Inl _ \<Rightarrow> None | Inr seg \<Rightarrow> py_int rt seg)"

text \<open>
  \<^verbatim>\<open>get_conversation\<close> binds the id it is given, and \<^verbatim>\<open>sqlite3\<close> raises \<^verbatim>\<open>OverflowError\<close>
  for an int outside the 64 bits of an SQLite integer. A row id is always inside them, so
  such an id has no row: the handlers below raise where the lookup of an id out of range
  finds nothing.
\<close>

definition sqlite_int :: "int \<Rightarrow> bool" where
  "sqlite_int n = (- (2 ^ 63) \<le> n \<and> n < 2 ^ 63)"

definition do_GET :: "runtime \<Rightarrow> string \<Rightarrow> store \<Rightarrow> exn + reply" where
  "do_GET rt path s =
     (if path = ''/api/conversations''
      then Inr (Json 200 (JObj [(''conversations'',
                                 JArr (map summary_json (list_conversations s)))]))
      else if is_messages_path path
      then (case path_id rt path of
              None \<Rightarrow> Inr (Json 400 (error_json ''invalid conversation id''))
            | Some cid \<Rightarrow>
                (case get_conversation cid s of
                   None \<Rightarrow>
                     if sqlite_int cid
                     then Inr (Json 404 (error_json ''conversation not found''))
                     else Inl OverflowError
                 | Some _ \<Rightarrow>
                     Inr (Json 200 (JObj [(''messages'',
                                           JArr (map message_json (list_messages cid s)))]))))
      else Inr (Static path))"

text \<open>
  The route of \<^verbatim>\<open>do_POST\<close> and \<^verbatim>\<open>do_PUT\<close> to one conversation: the id is parsed, then the
  conversation looked up, and only then is the body read.
\<close>

definition with_conversation ::
  "runtime \<Rightarrow> string \<Rightarrow> store \<Rightarrow> (int \<Rightarrow> exn + reply \<times> store) \<Rightarrow> exn + reply \<times> store" where
  "with_conversation rt path s k =
     (case path_id rt path of
        None \<Rightarrow> Inr (Json 400 (error_json ''invalid conversation id''), s)
      | Some cid \<Rightarrow>
          (case get_conversation cid s of
             None \<Rightarrow>
               if sqlite_int cid
               then Inr (Json 404 (error_json ''conversation not found''), s)
               else Inl OverflowError
           | Some _ \<Rightarrow> k cid))"

text \<open>Lines 261 to 268: appending the message of the body to the conversation found.\<close>

definition post_message ::
  "runtime \<Rightarrow> clock \<Rightarrow> int \<Rightarrow> raw_body \<Rightarrow> store \<Rightarrow> exn + reply \<times> store" where
  "post_message rt clock cid b s =
     and_then (read_json b) (\<lambda>body.
     and_then (dict_get body ''role'' JNull) (\<lambda>r.
     and_then (dict_get body ''content'' (JStr [])) (\<lambda>c.
     and_then (role_not_in r) (\<lambda>bad.
       if bad then Inr (Json 400 (error_json ''invalid role''), s)
       else
         and_then (bind_text rt r) (\<lambda>r1.
         and_then (bind_text rt c) (\<lambda>c1.
         and_then (append_message clock cid r1 c1 s) (\<lambda>s1.
           Inr (Json 201 ok_json, s1))))))))"

definition do_POST ::
  "runtime \<Rightarrow> env \<Rightarrow> (http_request \<Rightarrow> upstream) \<Rightarrow> clock \<Rightarrow> string \<Rightarrow> raw_body \<Rightarrow> store
     \<Rightarrow> exn + reply \<times> store" where
  "do_POST rt ev net clock path b s =
     (if path = ''/api/conversations''
      then
        and_then (read_json b) (\<lambda>body.
        and_then (dict_get body ''title'' JNull) (\<lambda>t.
        and_then (dict_get body ''systemPrompt'' JNull) (\<lambda>p.
        and_then (bind_text rt (py_or t (JStr ''New conversation''))) (\<lambda>ttl.
        and_then (bind_text rt (py_or p (JStr []))) (\<lambda>sp.
          let (cid, s1) = create_conversation clock ttl sp s
          in Inr (Json 201 (JObj [(''conversation'',
                                   conversation_json (get_conversation cid s1))]), s1))))))
      else if is_messages_path path
      then with_conversation rt path s (\<lambda>cid. post_message rt clock cid b s)
      else if path = ''/api/chat''
      then
        and_then (read_json b) (\<lambda>body.
        and_then (dict_get body ''messages'' (JArr [])) (\<lambda>ms.
          case ms of
            JArr msgs \<Rightarrow>
              (case fst (llm_chat rt ev net msgs) of
                 Inl (RuntimeError err) \<Rightarrow> Inr (Json 500 (error_json err), s)
               | Inl e \<Rightarrow> Inl e
               | Inr r \<Rightarrow> Inr (Json 200 (JObj [(''reply'', r)]), s))
          | _ \<Rightarrow> Inr (Json 400 (error_json ''messages must be an array''), s)))
      else Inr (SendError 404, s))"

text \<open>
  The loop that builds \<^verbatim>\<open>cleaned\<close> in \<^verbatim>\<open>do_PUT\<close>: \<open>None\<close> when it returns the 400 for a
  role that is not accepted.
\<close>

fun clean :: "json list \<Rightarrow> exn + (json \<times> json) list option" where
  "clean [] = Inr (Some [])"
| "clean (m # ms) =
     and_then (dict_get m ''role'' JNull) (\<lambda>r.
     and_then (dict_get m ''content'' (JStr [])) (\<lambda>c.
     and_then (role_not_in r) (\<lambda>bad.
       if bad then Inr None
       else and_then (clean ms) (\<lambda>rest.
              Inr (case rest of None \<Rightarrow> None | Some cs \<Rightarrow> Some ((r, c) # cs))))))"

text \<open>The parameters of the inserts of \<^verbatim>\<open>replace_messages\<close>, bound in their order.\<close>

fun bind_all :: "runtime \<Rightarrow> (json \<times> json) list \<Rightarrow> exn + (string \<times> string) list" where
  "bind_all rt [] = Inr []"
| "bind_all rt (m # ms) =
     and_then (bind_text rt (fst m)) (\<lambda>r.
     and_then (bind_text rt (snd m)) (\<lambda>c.
     and_then (bind_all rt ms) (\<lambda>rest. Inr ((r, c) # rest))))"

text \<open>\<^verbatim>\<open>body.get("title")\<close> handed to \<^verbatim>\<open>update_conversation\<close>: \<^verbatim>\<open>None\<close> is no update.\<close>

definition bind_optional :: "runtime \<Rightarrow> json \<Rightarrow> exn + string option" where
  "bind_optional rt v =
     (if v = JNull then Inr None else and_then (bind_text rt v) (\<lambda>x. Inr (Some x)))"

text \<open>Lines 298 to 300: updating the conversation found with the fields of the body.\<close>

definition put_conversation ::
  "runtime \<Rightarrow> clock \<Rightarrow> int \<Rightarrow> raw_body \<Rightarrow> store \<Rightarrow> exn + reply \<times> store" where
  "put_conversation rt clock cid b s =
     and_then (read_json b) (\<lambda>body.
     and_then (dict_get body ''title'' JNull) (\<lambda>t.
     and_then (dict_get body ''systemPrompt'' JNull) (\<lambda>p.
     and_then (bind_optional rt t) (\<lambda>ttl.
     and_then (bind_optional rt p) (\<lambda>sp.
       let s1 = update_conversation clock cid ttl sp s
       in Inr (Json 200 (JObj [(''conversation'',
                                conversation_json (get_conversation cid s1))]), s1))))))"

text \<open>Lines 311 to 325: replacing the messages of the conversation found.\<close>

definition put_messages ::
  "runtime \<Rightarrow> clock \<Rightarrow> int \<Rightarrow> raw_body \<Rightarrow> store \<Rightarrow> exn + reply \<times> store" where
  "put_messages rt clock cid b s =
     and_then (read_json b) (\<lambda>body.
     and_then (dict_get body ''messages'' (JArr [])) (\<lambda>ms.
       case ms of
         JArr msgs \<Rightarrow>
           and_then (clean msgs) (\<lambda>cleaned.
             case cleaned of
               None \<Rightarrow> Inr (Json 400 (error_json ''invalid role in messages''), s)
             | Some cs \<Rightarrow>
                 and_then (bind_all rt cs) (\<lambda>rows.
                 and_then (replace_messages clock cid rows s) (\<lambda>s1.
                   Inr (Json 200 ok_json, s1))))
       | _ \<Rightarrow> Inr (Json 400 (error_json ''messages must be an array''), s)))"

definition do_PUT ::
  "runtime \<Rightarrow> clock \<Rightarrow> string \<Rightarrow> raw_body \<Rightarrow> store \<Rightarrow> exn + reply \<times> store" where
  "do_PUT rt clock path b s =
     (if startswith path ''/api/conversations/'' \<and> \<not> endswith path ''/messages''
      then with_conversation rt path s (\<lambda>cid. put_conversation rt clock cid b s)
      else if is_messages_path path
      then with_conversation rt path s (\<lambda>cid. put_messages rt clock cid b s)
      else Inr (SendError 404, s))"

section \<open>Invariant of the store\<close>

text \<open>
  What \<^verbatim>\<open>AUTOINCREMENT\<close> maintains for the messages table: no row has an id above the
  recorded sequence value. It holds in \<open>init_db\<close> and every operation keeps it.
\<close>

definition store_ok :: "store \<Rightarrow> bool" where
  "store_ok s = (\<forall>m \<in> set (messages s). msg_id m \<le> msg_seq s)"

section \<open>Notions the statements below use\<close>

text \<open>
  The most recent user message of a list, in the words of the specification: the last
  message whose role is \<^verbatim>\<open>"user"\<close>; and the content of a message, the empty string when it
  has none. These are not taken from the code; the code's loop is \<open>last_user\<close>.
\<close>

definition is_object :: "json \<Rightarrow> bool" where
  "is_object v = (case v of JObj _ \<Rightarrow> True | _ \<Rightarrow> False)"

definition is_user :: "json \<Rightarrow> bool" where
  "is_user m = (case m of JObj kvs \<Rightarrow> map_of kvs ''role'' = Some (JStr ''user'') | _ \<Rightarrow> False)"

definition content_of :: "json \<Rightarrow> json" where
  "content_of m =
     (case m of
        JObj kvs \<Rightarrow> (case map_of kvs ''content'' of None \<Rightarrow> JStr [] | Some v \<Rightarrow> v)
      | _ \<Rightarrow> JStr [])"

definition most_recent_user :: "json list \<Rightarrow> json option" where
  "most_recent_user ms = (case filter is_user ms of [] \<Rightarrow> None | us \<Rightarrow> Some (last us))"

text \<open>
  The role of a message (\<^verbatim>\<open>None\<close>, here \<open>JNull\<close>, when it has none), the values Python can hash
  (all but lists and dicts), the roles the API accepts, and the text of a string value.
\<close>

definition role_of :: "json \<Rightarrow> json" where
  "role_of m =
     (case m of
        JObj kvs \<Rightarrow> (case map_of kvs ''role'' of None \<Rightarrow> JNull | Some v \<Rightarrow> v)
      | _ \<Rightarrow> JNull)"

definition hashable :: "json \<Rightarrow> bool" where
  "hashable v = (case v of JArr _ \<Rightarrow> False | JObj _ \<Rightarrow> False | _ \<Rightarrow> True)"

definition accepted_role :: "json \<Rightarrow> bool" where
  "accepted_role v = (case v of JStr r \<Rightarrow> r \<in> set ROLES | _ \<Rightarrow> False)"

definition text_of :: "json \<Rightarrow> string" where
  "text_of v = (case v of JStr s \<Rightarrow> s | _ \<Rightarrow> [])"

text \<open>
  The third segment of a path that starts with \<^verbatim>\<open>/api/conversations/\<close>: what stands between
  these 19 characters and the next slash.
\<close>

definition segment3 :: "string \<Rightarrow> string" where
  "segment3 p = takeWhile (\<lambda>c. c \<noteq> CHR ''/'') (drop 19 p)"

section \<open>Facts about the Python operations\<close>

lemma and_then_Inr [simp]: "and_then (Inr v) f = f v"
  by (simp add: and_then_def)

lemma and_then_Inl [simp]: "and_then (Inl e) f = Inl e"
  by (simp add: and_then_def)

lemma dict_get_JObj [simp]:
  "dict_get (JObj kvs) k d = Inr (case map_of kvs k of None \<Rightarrow> d | Some v \<Rightarrow> v)"
  by (simp add: dict_get_def)

lemma fmt_JStr [simp]: "fmt rt (JStr s) = s"
  by (simp add: fmt_def)

section \<open>Facts about the storage layer\<close>

lemma fold_max_ge: "(a::int) \<le> fold max xs a"
  by (induction xs arbitrary: a) (auto intro: order_trans[OF max.cobounded2])

lemma fold_max_mem: "x \<in> set xs \<Longrightarrow> (x::int) \<le> fold max xs a"
proof (induction xs arbitrary: a)
  case Nil
  then show ?case by simp
next
  case (Cons y ys)
  show ?case
  proof (cases "x = y")
    case True
    have "y \<le> max y a" by simp
    also have "\<dots> \<le> fold max ys (max y a)" by (rule fold_max_ge)
    finally show ?thesis using True by simp
  next
    case False
    with Cons show ?thesis by simp
  qed
qed

lemma next_rowid_gt_seq: "seq < next_rowid seq ids"
  using fold_max_ge [of seq ids] by (simp add: next_rowid_def)

lemma next_rowid_gt_mem: "x \<in> set ids \<Longrightarrow> x < next_rowid seq ids"
  using fold_max_mem [of x ids seq] by (simp add: next_rowid_def)

lemma get_conversation_messages_upd [simp]:
  "get_conversation cid (s\<lparr>messages := ms, msg_seq := q\<rparr>) = get_conversation cid s"
  "get_conversation cid (s\<lparr>messages := ms\<rparr>) = get_conversation cid s"
  by (simp_all add: get_conversation_def)

lemma insert_message_ok:
  assumes "r \<in> set ROLES" and "get_conversation cid s \<noteq> None"
  shows "insert_message cid r c t s =
           Inr (s\<lparr>messages := messages s @
                    [\<lparr>msg_id = next_rowid (msg_seq s) (map msg_id (messages s)),
                      conversation_id = cid, role = r, content = c, msg_created_at = t\<rparr>],
                  msg_seq := next_rowid (msg_seq s) (map msg_id (messages s))\<rparr>)"
  using assms by (simp add: insert_message_def Let_def)

lemma insert_all_ok:
  assumes "get_conversation cid s \<noteq> None" and "\<forall>m \<in> set ms. fst m \<in> set ROLES"
  shows "\<exists>new q. insert_all clock k cid ms s = Inr (s\<lparr>messages := messages s @ new, msg_seq := q\<rparr>)
           \<and> map (\<lambda>m. (role m, content m)) new = ms
           \<and> (\<forall>m \<in> set new. conversation_id m = cid)
           \<and> sorted_wrt (<) (map msg_id new)
           \<and> (\<forall>m \<in> set new. msg_seq s < msg_id m \<and> (\<forall>m0 \<in> set (messages s). msg_id m0 < msg_id m))
           \<and> msg_seq s \<le> q \<and> (\<forall>m \<in> set new. msg_id m \<le> q)"
  using assms
proof (induction ms arbitrary: s k)
  case Nil
  have "s = s\<lparr>messages := messages s @ [], msg_seq := msg_seq s\<rparr>" by simp
  then have "insert_all clock k cid [] s = Inr (s\<lparr>messages := messages s @ [], msg_seq := msg_seq s\<rparr>)"
    by simp
  then show ?case by - (rule exI [of _ "[]"], rule exI [of _ "msg_seq s"], simp)
next
  case (Cons m ms)
  define i where "i = next_rowid (msg_seq s) (map msg_id (messages s))"
  define row where "row = \<lparr>msg_id = i, conversation_id = cid, role = fst m, content = snd m,
                            msg_created_at = clock k\<rparr>"
  define s1 where "s1 = s\<lparr>messages := messages s @ [row], msg_seq := i\<rparr>"
  have step: "insert_message cid (fst m) (snd m) (clock k) s = Inr s1"
    using Cons.prems by (simp add: insert_message_ok s1_def row_def i_def)
  have ex1: "get_conversation cid s1 \<noteq> None"
    using Cons.prems by (simp add: s1_def)
  have roles: "\<forall>m \<in> set ms. fst m \<in> set ROLES"
    using Cons.prems by simp
  from Cons.IH [OF ex1 roles, of "Suc k"] obtain new q where
    run: "insert_all clock (Suc k) cid ms s1 = Inr (s1\<lparr>messages := messages s1 @ new, msg_seq := q\<rparr>)"
    and rc: "map (\<lambda>m. (role m, content m)) new = ms"
    and own: "\<forall>m \<in> set new. conversation_id m = cid"
    and asc: "sorted_wrt (<) (map msg_id new)"
    and fresh: "\<forall>m \<in> set new. msg_seq s1 < msg_id m \<and> (\<forall>m0 \<in> set (messages s1). msg_id m0 < msg_id m)"
    and q: "msg_seq s1 \<le> q" "\<forall>m \<in> set new. msg_id m \<le> q"
    by blast
  have i_seq: "msg_seq s < i"
    by (simp add: i_def next_rowid_gt_seq)
  have i_old: "\<forall>m0 \<in> set (messages s). msg_id m0 < i"
    by (simp add: i_def next_rowid_gt_mem)
  have s1_seq: "msg_seq s1 = i" and s1_msgs: "messages s1 = messages s @ [row]"
    by (simp_all add: s1_def)
  have row_id: "msg_id row = i" by (simp add: row_def)
  have eq: "s1\<lparr>messages := messages s1 @ new, msg_seq := q\<rparr> =
            s\<lparr>messages := messages s @ (row # new), msg_seq := q\<rparr>"
    by (simp add: s1_def)
  have "insert_all clock k cid (m # ms) s = Inr (s\<lparr>messages := messages s @ (row # new), msg_seq := q\<rparr>)"
    using step run eq by simp
  moreover have "map (\<lambda>m. (role m, content m)) (row # new) = m # ms"
    using rc by (simp add: row_def)
  moreover have "\<forall>m \<in> set (row # new). conversation_id m = cid"
    using own by (simp add: row_def)
  moreover have "sorted_wrt (<) (map msg_id (row # new))"
    using asc fresh s1_seq row_id by simp
  moreover have "\<forall>m \<in> set (row # new). msg_seq s < msg_id m \<and> (\<forall>m0 \<in> set (messages s). msg_id m0 < msg_id m)"
  proof
    fix x assume "x \<in> set (row # new)"
    then consider "x = row" | "x \<in> set new" by auto
    then show "msg_seq s < msg_id x \<and> (\<forall>m0 \<in> set (messages s). msg_id m0 < msg_id x)"
    proof cases
      case 1
      then show ?thesis using i_seq i_old row_id by simp
    next
      case 2
      with fresh have "i < msg_id x" using s1_seq by simp
      then show ?thesis using i_seq i_old by fastforce
    qed
  qed
  moreover have "msg_seq s \<le> q" using q(1) i_seq s1_seq by simp
  moreover have "\<forall>m \<in> set (row # new). msg_id m \<le> q"
    using q s1_seq row_id by simp
  ultimately show ?case
    by - (rule exI [of _ "row # new"], rule exI [of _ q], intro conjI, assumption+)
qed

lemma find_update_rows:
  assumes "\<And>c. conv_id (f c) = conv_id c"
  shows "find (\<lambda>c. conv_id c = j) (map (\<lambda>c. if conv_id c = cid then f c else c) cs) =
           (if j = cid then map_option f (find (\<lambda>c. conv_id c = j) cs)
            else find (\<lambda>c. conv_id c = j) cs)"
  using assms by (induction cs) auto

lemma get_conversation_update_rows:
  assumes "\<And>c. conv_id (f c) = conv_id c"
  shows "get_conversation j (update_rows cid f s) =
           (if j = cid then map_option f (get_conversation j s) else get_conversation j s)"
  using find_update_rows [of f j cid "conversations s", OF assms]
  by (simp add: get_conversation_def update_rows_def)

lemma get_conversation_touch:
  "get_conversation j (touch cid t s) =
     (if j = cid then map_option (\<lambda>c. c\<lparr>updated_at := t\<rparr>) (get_conversation j s)
      else get_conversation j s)"
  unfolding touch_def by (rule get_conversation_update_rows) simp

lemma messages_touch [simp]: "messages (touch cid t s) = messages s"
  by (simp add: touch_def update_rows_def)

lemma msg_seq_touch [simp]: "msg_seq (touch cid t s) = msg_seq s"
  by (simp add: touch_def update_rows_def)

lemma list_messages_touch [simp]: "list_messages j (touch cid t s) = list_messages j s"
  by (simp add: list_messages_def)

lemma get_conversation_delete [simp]:
  "get_conversation j (delete_messages cid s) = get_conversation j s"
  by (simp add: delete_messages_def)

lemma sort_key_strict: "sorted_wrt (<) (map f xs) \<Longrightarrow> sort_key f xs = xs"
  by (rule sort_key_id_if_sorted) (simp add: strict_sorted_imp_sorted)

lemma replace_messages_ok:
  assumes "get_conversation cid s \<noteq> None" and "\<forall>m \<in> set ms. fst m \<in> set ROLES"
  shows "\<exists>s'. replace_messages clock cid ms s = Inr s'
           \<and> map (\<lambda>m. (role m, content m)) (list_messages cid s') = ms
           \<and> sorted_wrt (<) (map msg_id (list_messages cid s'))
           \<and> (\<forall>m \<in> set (list_messages cid s'). msg_seq s < msg_id m)
           \<and> (\<forall>j. j \<noteq> cid \<longrightarrow> list_messages j s' = list_messages j s)
           \<and> get_conversation cid s' =
               map_option (\<lambda>c. c\<lparr>updated_at := clock (length ms)\<rparr>) (get_conversation cid s)
           \<and> (\<forall>j. j \<noteq> cid \<longrightarrow> get_conversation j s' = get_conversation j s)"
proof -
  define s0 where "s0 = delete_messages cid s"
  have ex0: "get_conversation cid s0 \<noteq> None"
    using assms(1) by (simp add: s0_def)
  from insert_all_ok [OF ex0 assms(2), of clock 0] obtain new q where
    run: "insert_all clock 0 cid ms s0 = Inr (s0\<lparr>messages := messages s0 @ new, msg_seq := q\<rparr>)"
    and rc: "map (\<lambda>m. (role m, content m)) new = ms"
    and own: "\<forall>m \<in> set new. conversation_id m = cid"
    and asc: "sorted_wrt (<) (map msg_id new)"
    and fresh: "\<forall>m \<in> set new. msg_seq s0 < msg_id m \<and> (\<forall>m0 \<in> set (messages s0). msg_id m0 < msg_id m)"
    by blast
  define s1 where "s1 = s0\<lparr>messages := messages s0 @ new, msg_seq := q\<rparr>"
  define s' where "s' = touch cid (clock (length ms)) s1"
  have res: "replace_messages clock cid ms s = Inr s'"
    using run by (simp add: replace_messages_def s0_def s1_def s'_def)
  have msgs: "messages s' = filter (\<lambda>m. conversation_id m \<noteq> cid) (messages s) @ new"
    by (simp add: s'_def s1_def s0_def delete_messages_def)
  have f_new: "filter (\<lambda>m. conversation_id m = cid) new = new"
    using own by (simp add: filter_id_conv)
  have "filter (\<lambda>m. conversation_id m = cid) (messages s') = new"
    by (simp add: msgs f_new)
  then have lm: "list_messages cid s' = new"
    using asc by (simp add: list_messages_def sort_key_strict)
  have other: "list_messages j s' = list_messages j s" if "j \<noteq> cid" for j
  proof -
    have "filter (\<lambda>m. conversation_id m = j) new = []"
      using own that by (auto simp: filter_empty_conv)
    moreover have "filter (\<lambda>m. conversation_id m = j) (filter (\<lambda>m. conversation_id m \<noteq> cid) (messages s))
                   = filter (\<lambda>m. conversation_id m = j) (messages s)"
      using that by (auto intro: filter_cong)
    ultimately show ?thesis by (simp add: list_messages_def msgs)
  qed
  have seq0: "msg_seq s0 = msg_seq s" by (simp add: s0_def delete_messages_def)
  have gc: "get_conversation j s1 = get_conversation j s" for j
    by (simp add: s1_def s0_def)
  have "get_conversation cid s' =
          map_option (\<lambda>c. c\<lparr>updated_at := clock (length ms)\<rparr>) (get_conversation cid s)"
    by (simp add: s'_def get_conversation_touch gc)
  moreover have "\<forall>j. j \<noteq> cid \<longrightarrow> get_conversation j s' = get_conversation j s"
    by (simp add: s'_def get_conversation_touch gc)
  moreover have "\<forall>m \<in> set (list_messages cid s'). msg_seq s < msg_id m"
    using fresh lm seq0 by simp
  ultimately show ?thesis
    using res lm rc asc other by simp
qed

lemma store_ok_fresh:
  "store_ok s \<Longrightarrow> msg_seq s < i \<Longrightarrow> m0 \<in> set (messages s) \<Longrightarrow> msg_id m0 < i"
  by (fastforce simp: store_ok_def)

lemma find_snoc:
  "find P (xs @ [x]) = (case find P xs of None \<Rightarrow> (if P x then Some x else None) | Some y \<Rightarrow> Some y)"
  by (induction xs) auto

lemma get_conversation_create:
  "get_conversation (fst (create_conversation clock t p s)) (snd (create_conversation clock t p s)) =
     Some \<lparr>conv_id = next_rowid (conv_seq s) (map conv_id (conversations s)),
            title = t, system_prompt = p, created_at = clock 0, updated_at = clock 0\<rparr>"
proof -
  define i where "i = next_rowid (conv_seq s) (map conv_id (conversations s))"
  have "\<forall>c \<in> set (conversations s). conv_id c \<noteq> i"
    using next_rowid_gt_mem [of _ "map conv_id (conversations s)" "conv_seq s"]
    by (fastforce simp: i_def)
  then have "find (\<lambda>c. conv_id c = i) (conversations s) = None"
    by (simp add: find_None_iff)
  then show ?thesis
    by (simp add: create_conversation_def Let_def get_conversation_def find_snoc i_def)
qed

lemma append_message_ok:
  assumes "r \<in> set ROLES" and "get_conversation cid s \<noteq> None"
  shows "append_message clock cid r c s =
           Inr (touch cid (clock 1)
                  (s\<lparr>messages := messages s @
                       [\<lparr>msg_id = next_rowid (msg_seq s) (map msg_id (messages s)),
                         conversation_id = cid, role = r, content = c,
                         msg_created_at = clock 0\<rparr>],
                     msg_seq := next_rowid (msg_seq s) (map msg_id (messages s))\<rparr>))"
  using assms by (simp add: append_message_def insert_message_ok)

lemma get_conversation_append:
  assumes "append_message clock cid r c s = Inr s'"
  shows "get_conversation j s' =
           (if j = cid then map_option (\<lambda>c. c\<lparr>updated_at := clock 1\<rparr>) (get_conversation j s)
            else get_conversation j s)"
  using assms
  by (auto simp: append_message_def insert_message_def Let_def get_conversation_touch
           split: if_splits sum.splits)

lemma get_conversation_update:
  "get_conversation j (update_conversation clock cid ttl sp s) =
     (if j = cid
      then map_option
             (\<lambda>c. c\<lparr>title := (case ttl of None \<Rightarrow> title c | Some t \<Rightarrow> t),
                     system_prompt := (case sp of None \<Rightarrow> system_prompt c | Some p \<Rightarrow> p),
                     updated_at := clock 0\<rparr>)
             (get_conversation j s)
      else get_conversation j s)"
proof -
  let ?f = "\<lambda>c. (let c1 = (case ttl of None \<Rightarrow> c | Some t \<Rightarrow> c\<lparr>title := t\<rparr>);
                      c2 = (case sp of None \<Rightarrow> c1 | Some p \<Rightarrow> c1\<lparr>system_prompt := p\<rparr>)
                  in c2\<lparr>updated_at := clock 0\<rparr>)"
  have id: "conv_id (?f c) = conv_id c" for c
    by (simp add: Let_def split: option.splits)
  have eq: "?f c = c\<lparr>title := (case ttl of None \<Rightarrow> title c | Some t \<Rightarrow> t),
                     system_prompt := (case sp of None \<Rightarrow> system_prompt c | Some p \<Rightarrow> p),
                     updated_at := clock 0\<rparr>" for c
    by (simp add: Let_def split: option.splits)
  have "get_conversation j (update_rows cid ?f s) =
          (if j = cid then map_option ?f (get_conversation j s) else get_conversation j s)"
    by (rule get_conversation_update_rows) (rule id)
  then show ?thesis
    unfolding update_conversation_def eq .
qed

lemma messages_update [simp]:
  "messages (update_conversation clock cid ttl sp s) = messages s"
  by (simp add: update_conversation_def update_rows_def)

lemma list_conversations_perm:
  "mset (map fst (list_conversations s)) = mset (conversations s)"
proof -
  let ?k = "\<lambda>row :: conversation \<times> nat. updated_at (fst row)"
  let ?xs = "map (\<lambda>c. (c, message_count s (conv_id c))) (conversations s)"
  have a: "mset (rev (sort_key ?k (rev ?xs))) = mset ?xs"
    by simp
  have "mset (map fst (rev (sort_key ?k (rev ?xs)))) = mset (map fst ?xs)"
    by (simp only: mset_map a)
  moreover have "map fst ?xs = conversations s"
    by (simp add: comp_def)
  ultimately show ?thesis
    by (simp only: list_conversations_def)
qed

lemma list_conversations_sorted:
  "sorted_wrt (\<lambda>a b. updated_at (fst b) \<le> updated_at (fst a)) (list_conversations s)"
proof -
  let ?k = "\<lambda>row :: conversation \<times> nat. updated_at (fst row)"
  let ?xs = "rev (map (\<lambda>c. (c, message_count s (conv_id c))) (conversations s))"
  have "sorted (map ?k (sort_key ?k ?xs))" by (rule sorted_sort_key)
  then have "sorted_wrt (\<lambda>a b. ?k a \<le> ?k b) (sort_key ?k ?xs)"
    by (simp add: sorted_map)
  then show ?thesis
    by (simp add: list_conversations_def sorted_wrt_rev)
qed

lemma list_conversations_count:
  "row \<in> set (list_conversations s) \<Longrightarrow> snd row = message_count s (conv_id (fst row))"
  by (auto simp: list_conversations_def)

text \<open>The invariant holds initially and is kept by every operation.\<close>

lemma store_ok_init: "store_ok init_db"
  by (simp add: store_ok_def init_db_def)

lemma store_ok_create: "store_ok s \<Longrightarrow> store_ok (snd (create_conversation clock t p s))"
  by (simp add: store_ok_def create_conversation_def Let_def)

lemma store_ok_update: "store_ok s \<Longrightarrow> store_ok (update_conversation clock cid t p s)"
  by (simp add: store_ok_def update_conversation_def update_rows_def)

lemma store_ok_touch: "store_ok s \<Longrightarrow> store_ok (touch cid t s)"
  by (simp add: store_ok_def)

lemma store_ok_insert:
  assumes "store_ok s" and "insert_message cid r c t s = Inr s'"
  shows "store_ok s'"
proof -
  let ?i = "next_rowid (msg_seq s) (map msg_id (messages s))"
  have "\<forall>m \<in> set (messages s). msg_id m \<le> ?i"
    using next_rowid_gt_mem [of _ "map msg_id (messages s)" "msg_seq s"] by fastforce
  then show ?thesis
    using assms(2)
    by (auto simp: insert_message_def Let_def store_ok_def split: if_splits)
qed

lemma store_ok_append:
  assumes "store_ok s" and "append_message clock cid r c s = Inr s'"
  shows "store_ok s'"
  using assms store_ok_insert store_ok_touch
  by (auto simp: append_message_def split: sum.splits)

lemma store_ok_insert_all:
  "store_ok s \<Longrightarrow> insert_all clock k cid ms s = Inr s' \<Longrightarrow> store_ok s'"
proof (induction ms arbitrary: s k)
  case Nil
  then show ?case by simp
next
  case (Cons m ms)
  then show ?case
    by (auto split: sum.splits dest: store_ok_insert)
qed

lemma store_ok_delete: "store_ok s \<Longrightarrow> store_ok (delete_messages cid s)"
  by (simp add: store_ok_def delete_messages_def)

lemma store_ok_replace:
  assumes "store_ok s" and "replace_messages clock cid ms s = Inr s'"
  shows "store_ok s'"
  using assms store_ok_insert_all [OF store_ok_delete [OF assms(1)]] store_ok_touch
  by (auto simp: replace_messages_def split: sum.splits)

section \<open>Facts about the router\<close>

lemma split_acc_hd:
  "\<exists>rest. split_acc cur s = (rev cur @ takeWhile (\<lambda>c. c \<noteq> CHR ''/'') s) # rest"
proof (induction s arbitrary: cur)
  case Nil
  then show ?case by simp
next
  case (Cons c s)
  show ?case
  proof (cases "c = CHR ''/''")
    case True
    then show ?thesis by simp
  next
    case False
    from Cons [of "c # cur"] obtain rest where
      "split_acc (c # cur) s = (rev (c # cur) @ takeWhile (\<lambda>c. c \<noteq> CHR ''/'') s) # rest"
      by blast
    with False show ?thesis by simp
  qed
qed

lemma split_slash_prefix:
  "split_slash (''/api/conversations/'' @ r) = [] # ''api'' # ''conversations'' # split_slash r"
  by (simp add: split_slash_def)

lemma startswith_decompose:
  "startswith path p \<Longrightarrow> path = p @ drop (length p) path"
  by (metis append_take_drop_id startswith_def)

lemma index_third_segment:
  assumes "startswith path ''/api/conversations/''"
  shows "index (split_slash path) 3 = Inr (takeWhile (\<lambda>c. c \<noteq> CHR ''/'') (drop 19 path))"
proof -
  define r where "r = drop 19 path"
  have len: "length ''/api/conversations/'' = 19"
    by simp
  have "path = ''/api/conversations/'' @ drop (length ''/api/conversations/'') path"
    by (rule startswith_decompose [OF assms])
  then have path: "path = ''/api/conversations/'' @ r"
    unfolding len r_def .
  obtain rest where "split_slash r = takeWhile (\<lambda>c. c \<noteq> CHR ''/'') r # rest"
    using split_acc_hd [of "[]" r] by (auto simp: split_slash_def)
  then have "split_slash path = [] # ''api'' # ''conversations'' #
                takeWhile (\<lambda>c. c \<noteq> CHR ''/'') r # rest"
    by (subst path) (simp only: split_slash_prefix)
  then show ?thesis
    by (simp add: index_def r_def)
qed

lemma messages_path_not_list: "is_messages_path path \<Longrightarrow> path \<noteq> ''/api/conversations''"
  by (auto simp: is_messages_path_def startswith_def)

lemma do_GET_messages:
  assumes "is_messages_path path"
  shows "do_GET rt path s =
           (case path_id rt path of
              None \<Rightarrow> Inr (Json 400 (error_json ''invalid conversation id''))
            | Some cid \<Rightarrow>
                (case get_conversation cid s of
                   None \<Rightarrow>
                     if sqlite_int cid
                     then Inr (Json 404 (error_json ''conversation not found''))
                     else Inl OverflowError
                 | Some _ \<Rightarrow>
                     Inr (Json 200 (JObj [(''messages'',
                                           JArr (map message_json (list_messages cid s)))]))))"
  using assms messages_path_not_list [OF assms] by (simp add: do_GET_def)

lemma do_POST_messages:
  assumes "is_messages_path path"
  shows "do_POST rt ev net clock path b s =
           with_conversation rt path s (\<lambda>cid. post_message rt clock cid b s)"
  using assms messages_path_not_list [OF assms] by (simp add: do_POST_def)

lemma do_PUT_messages:
  assumes "is_messages_path path"
  shows "do_PUT rt clock path b s =
           with_conversation rt path s (\<lambda>cid. put_messages rt clock cid b s)"
  using assms by (simp add: do_PUT_def is_messages_path_def)

lemma path_id_third:
  assumes "index (split_slash p) 3 = index (split_slash q) 3"
  shows "path_id rt p = path_id rt q"
  using assms by (simp add: path_id_def)

text \<open>Roles, the loop of \<^verbatim>\<open>do_PUT\<close>, and what a handler leaves unchanged.\<close>

lemma role_not_in_hashable: "hashable v \<Longrightarrow> role_not_in v = Inr (\<not> accepted_role v)"
  by (cases v) (simp_all add: hashable_def role_not_in_def accepted_role_def)

lemma role_not_in_accepted: "accepted_role v \<Longrightarrow> role_not_in v = Inr False"
  by (cases v) (simp_all add: role_not_in_def accepted_role_def)

lemma with_conversation_found:
  assumes "path_id rt path = Some cid" and "get_conversation cid s = Some c"
  shows "with_conversation rt path s k = k cid"
  using assms by (simp add: with_conversation_def)

lemma dict_get_role: "is_object m \<Longrightarrow> dict_get m ''role'' JNull = Inr (role_of m)"
  by (cases m) (simp_all add: is_object_def role_of_def)

lemma dict_get_content: "is_object m \<Longrightarrow> dict_get m ''content'' (JStr []) = Inr (content_of m)"
  by (cases m) (simp_all add: is_object_def content_of_def)

lemma clean_step:
  assumes "is_object m"
  shows "clean (m # ms) =
           and_then (role_not_in (role_of m)) (\<lambda>bad.
             if bad then Inr None
             else and_then (clean ms) (\<lambda>rest.
                    Inr (case rest of None \<Rightarrow> None
                         | Some cs \<Rightarrow> Some ((role_of m, content_of m) # cs))))"
  using assms by (simp add: dict_get_role dict_get_content)

lemma clean_invalid:
  assumes "\<forall>m \<in> set pre. is_object m \<and> accepted_role (role_of m)"
    and "is_object bad" and "hashable (role_of bad)" and "\<not> accepted_role (role_of bad)"
  shows "clean (pre @ bad # post) = Inr None"
  using assms(1)
proof (induction pre)
  case Nil
  show ?case
    using assms(2-4) by (simp only: append_Nil clean_step role_not_in_hashable) simp
next
  case (Cons m pre)
  then have m: "is_object m" "accepted_role (role_of m)" and
    rest: "clean (pre @ bad # post) = Inr None"
    by simp_all
  show ?case
    using m rest by (simp only: append_Cons clean_step role_not_in_accepted) simp
qed

lemma and_then_eq_Inr: "and_then x f = Inr y \<longleftrightarrow> (\<exists>v. x = Inr v \<and> f v = Inr y)"
  by (cases x) simp_all

lemma with_conversation_frame:
  assumes "with_conversation rt path s k = Inr (r, s')"
    and "\<And>cid. k cid = Inr (r, s') \<Longrightarrow> s' = s"
  shows "s' = s"
  using assms by (auto simp: with_conversation_def split: option.splits if_splits)

lemma post_message_frame:
  assumes "post_message rt clock cid b s = Inr (r, s')" and "r \<noteq> Json 201 ok_json"
  shows "s' = s"
  using assms by (auto simp: post_message_def and_then_eq_Inr split: if_splits)

lemma put_messages_frame:
  assumes "put_messages rt clock cid b s = Inr (r, s')" and "r \<noteq> Json 200 ok_json"
  shows "s' = s"
proof -
  from assms(1) obtain ms where rest: "(case ms of
            JArr msgs \<Rightarrow>
              and_then (clean msgs) (\<lambda>cleaned.
                case cleaned of
                  None \<Rightarrow> Inr (Json 400 (error_json ''invalid role in messages''), s)
                | Some cs \<Rightarrow>
                    and_then (bind_all rt cs) (\<lambda>rows.
                    and_then (replace_messages clock cid rows s) (\<lambda>s1.
                      Inr (Json 200 ok_json, s1))))
          | _ \<Rightarrow> Inr (Json 400 (error_json ''messages must be an array''), s)) = Inr (r, s')"
    by (auto simp: put_messages_def and_then_eq_Inr)
  then show "s' = s"
    using assms(2) by (cases ms) (auto simp: and_then_eq_Inr split: option.splits)
qed

lemma do_POST_messages_frame:
  assumes "is_messages_path path" and "do_POST rt ev net clock path b s = Inr (r, s')"
    and "r \<noteq> Json 201 ok_json"
  shows "s' = s"
proof (rule with_conversation_frame)
  show "with_conversation rt path s (\<lambda>cid. post_message rt clock cid b s) = Inr (r, s')"
    using assms(2) unfolding do_POST_messages [OF assms(1)] .
next
  fix cid
  assume "post_message rt clock cid b s = Inr (r, s')"
  then show "s' = s"
    using assms(3) by (rule post_message_frame)
qed

lemma do_PUT_messages_frame:
  assumes "is_messages_path path" and "do_PUT rt clock path b s = Inr (r, s')"
    and "r \<noteq> Json 200 ok_json"
  shows "s' = s"
proof (rule with_conversation_frame)
  show "with_conversation rt path s (\<lambda>cid. put_messages rt clock cid b s) = Inr (r, s')"
    using assms(2) unfolding do_PUT_messages [OF assms(1)] .
next
  fix cid
  assume "put_messages rt clock cid b s = Inr (r, s')"
  then show "s' = s"
    using assms(3) by (rule put_messages_frame)
qed

lemma bind_text_JStr [simp]: "bind_text rt (JStr x) = Inr x"
  by (simp add: bind_text_def)


lemma accepted_roleD: "accepted_role v \<Longrightarrow> \<exists>r. v = JStr r \<and> r \<in> set ROLES"
  by (cases v) (simp_all add: accepted_role_def)

lemma clean_valid:
  assumes "\<forall>m \<in> set msgs. is_object m \<and> accepted_role (role_of m)"
  shows "clean msgs = Inr (Some (map (\<lambda>j. (role_of j, content_of j)) msgs))"
  using assms
proof (induction msgs)
  case Nil
  then show ?case by simp
next
  case (Cons m msgs)
  then have m: "is_object m" "accepted_role (role_of m)"
    and rest: "clean msgs = Inr (Some (map (\<lambda>j. (role_of j, content_of j)) msgs))"
    by simp_all
  show ?case
    using m rest by (simp only: clean_step role_not_in_accepted) simp
qed

lemma bind_all_strings:
  assumes "\<forall>m \<in> set msgs. accepted_role (role_of m) \<and> (\<exists>t. content_of m = JStr t)"
  shows "bind_all rt (map (\<lambda>j. (role_of j, content_of j)) msgs) =
           Inr (map (\<lambda>j. (text_of (role_of j), text_of (content_of j))) msgs)"
  using assms
proof (induction msgs)
  case Nil
  then show ?case by simp
next
  case (Cons m msgs)
  then obtain r t where "role_of m = JStr r" "content_of m = JStr t"
    using accepted_roleD by fastforce
  with Cons show ?case
    by (simp add: text_of_def)
qed

text \<open>The route of \<^verbatim>\<open>do_PUT\<close> that updates a conversation.\<close>

lemma bind_optional_field:
  "bind_optional rt (case x of None \<Rightarrow> JNull | Some t \<Rightarrow> JStr t) = Inr x"
  by (cases x) (simp_all add: bind_optional_def)

lemma lookup_field:
  "map_of kvs k = map_option JStr x \<Longrightarrow>
     (case map_of kvs k of None \<Rightarrow> JNull | Some v \<Rightarrow> v) =
     (case x of None \<Rightarrow> JNull | Some t \<Rightarrow> JStr t)"
  by (cases x) simp_all

lemma do_PUT_conversation:
  assumes "startswith path ''/api/conversations/''" and "\<not> endswith path ''/messages''"
    and "path_id rt path = Some cid" and "get_conversation cid s = Some c"
    and "map_of kvs ''title'' = map_option JStr ttl"
    and "map_of kvs ''systemPrompt'' = map_option JStr sp"
  shows "do_PUT rt clock path (JsonBody (JObj kvs)) s =
           Inr (Json 200 (JObj [(''conversation'',
                  conversation_json
                    (get_conversation cid (update_conversation clock cid ttl sp s)))]),
                update_conversation clock cid ttl sp s)"
proof -
  have body: "read_json (JsonBody (JObj kvs)) = Inr (JObj kvs)"
    by (simp add: read_json_def)
  have t: "dict_get (JObj kvs) ''title'' JNull =
             Inr (case ttl of None \<Rightarrow> JNull | Some t \<Rightarrow> JStr t)"
    by (simp only: dict_get_JObj lookup_field [OF assms(5)])
  have p: "dict_get (JObj kvs) ''systemPrompt'' JNull =
             Inr (case sp of None \<Rightarrow> JNull | Some t \<Rightarrow> JStr t)"
    by (simp only: dict_get_JObj lookup_field [OF assms(6)])
  have "do_PUT rt clock path (JsonBody (JObj kvs)) s =
          with_conversation rt path s (\<lambda>cid. put_conversation rt clock cid (JsonBody (JObj kvs)) s)"
    using assms(1,2) by (simp only: do_PUT_def) simp
  then show ?thesis
    by (simp only: with_conversation_found [OF assms(3,4)] put_conversation_def body t p
        and_then_Inr bind_optional_field Let_def)
qed

section \<open>Replacing the messages of a conversation\<close>

text \<open>
  Claim C4. For a conversation that exists and any list of role and content pairs, empty or
  not, whose roles are among the three the schema accepts, \<^verbatim>\<open>replace_messages\<close> succeeds, and
  \<^verbatim>\<open>list_messages\<close> then returns exactly the given roles and contents in the given order, with
  identifiers that ascend strictly and are larger than every identifier the messages table
  held before. The conversation is still there afterwards, and with the empty list it has
  no message.
\<close>

theorem replace_then_list_messages:
  assumes "store_ok s"
    and "get_conversation cid s \<noteq> None"
    and "\<forall>m \<in> set ms. fst m \<in> set ROLES"
  shows "\<exists>s'. replace_messages clock cid ms s = Inr s'
           \<and> map (\<lambda>m. (role m, content m)) (list_messages cid s') = ms
           \<and> sorted_wrt (<) (map msg_id (list_messages cid s'))
           \<and> (\<forall>m \<in> set (list_messages cid s'). \<forall>m0 \<in> set (messages s). msg_id m0 < msg_id m)
           \<and> get_conversation cid s' \<noteq> None
           \<and> (ms = [] \<longrightarrow> list_messages cid s' = [])"
proof -
  from replace_messages_ok [OF assms(2,3), of clock] obtain s' where
    res: "replace_messages clock cid ms s = Inr s'"
    and rc: "map (\<lambda>m. (role m, content m)) (list_messages cid s') = ms"
    and asc: "sorted_wrt (<) (map msg_id (list_messages cid s'))"
    and fresh: "\<forall>m \<in> set (list_messages cid s'). msg_seq s < msg_id m"
    and gc: "get_conversation cid s' =
               map_option (\<lambda>c. c\<lparr>updated_at := clock (length ms)\<rparr>) (get_conversation cid s)"
    by blast
  have "\<forall>m \<in> set (list_messages cid s'). \<forall>m0 \<in> set (messages s). msg_id m0 < msg_id m"
    using fresh store_ok_fresh [OF assms(1)] by blast
  moreover have "get_conversation cid s' \<noteq> None"
    using gc assms(2) by simp
  moreover have "ms = [] \<longrightarrow> list_messages cid s' = []"
    using rc by auto
  ultimately show ?thesis
    using res rc asc by blast
qed

text \<open>Replacing the one message of conversation 1 by two: they get the identifiers 2 and 3.\<close>

theorem replace_then_list_messages_witness:
  "\<exists>s'. replace_messages (\<lambda>k. ''2024-05-01T10:00:00+00:00'') 1
            [(''system'', ''be brief''), (''user'', ''hi'')]
            \<lparr>conversations = [\<lparr>conv_id = 1, title = ''t'', system_prompt = [],
                                created_at = ''2024-05-01T09:00:00+00:00'',
                                updated_at = ''2024-05-01T09:00:00+00:00''\<rparr>],
             messages = [\<lparr>msg_id = 1, conversation_id = 1, role = ''user'', content = ''old'',
                           msg_created_at = ''2024-05-01T09:00:00+00:00''\<rparr>],
             conv_seq = 1, msg_seq = 1\<rparr> = Inr s'
      \<and> map (\<lambda>m. (role m, content m)) (list_messages 1 s')
            = [(''system'', ''be brief''), (''user'', ''hi'')]
      \<and> map msg_id (list_messages 1 s') = [2, 3]"
proof -
  define s where "s = \<lparr>conversations = [\<lparr>conv_id = 1, title = ''t'', system_prompt = [],
                                created_at = ''2024-05-01T09:00:00+00:00'',
                                updated_at = ''2024-05-01T09:00:00+00:00''\<rparr>],
             messages = [\<lparr>msg_id = 1, conversation_id = 1, role = ''user'', content = ''old'',
                           msg_created_at = ''2024-05-01T09:00:00+00:00''\<rparr>],
             conv_seq = 1, msg_seq = 1\<rparr>"
  define ms where "ms = [(''system'', ''be brief''), (''user'', ''hi'')]"
  define clock :: clock where "clock = (\<lambda>k. ''2024-05-01T10:00:00+00:00'')"
  have h1: "store_ok s" by (simp add: s_def store_ok_def)
  have h2: "get_conversation 1 s \<noteq> None" by (simp add: s_def get_conversation_def)
  have h3: "\<forall>m \<in> set ms. fst m \<in> set ROLES" by (simp add: ms_def ROLES_def)
  from replace_then_list_messages [OF h1 h2 h3, of clock]
  obtain s' where
    res: "replace_messages clock 1 ms s = Inr s'"
    and rc: "map (\<lambda>m. (role m, content m)) (list_messages 1 s') = ms"
    by blast
  have "map msg_id (list_messages 1 s') = [2, 3]"
    using res
    by (auto simp: replace_messages_def delete_messages_def insert_message_def ROLES_def
          get_conversation_def next_rowid_def touch_def update_rows_def list_messages_def Let_def
          s_def ms_def)
  with res rc have "\<exists>s'. replace_messages clock 1 ms s = Inr s'
      \<and> map (\<lambda>m. (role m, content m)) (list_messages 1 s') = ms
      \<and> map msg_id (list_messages 1 s') = [2, 3]"
    by auto
  then show ?thesis
    unfolding s_def ms_def clock_def .
qed

section \<open>The updated timestamp\<close>

lemma insert_message_conversations:
  "insert_message cid r c t s = Inr s' \<Longrightarrow> conversations s' = conversations s"
  by (auto simp: insert_message_def Let_def split: if_splits)

lemma insert_all_conversations:
  "insert_all clock k cid ms s = Inr s' \<Longrightarrow> conversations s' = conversations s"
proof (induction ms arbitrary: s k)
  case Nil
  then show ?case by simp
next
  case (Cons m ms)
  then show ?case
    by (auto split: sum.splits dest: insert_message_conversations)
qed

lemma get_conversation_replace:
  assumes "replace_messages clock cid ms s = Inr s'"
  shows "get_conversation j s' =
           (if j = cid
            then map_option (\<lambda>c. c\<lparr>updated_at := clock (length ms)\<rparr>) (get_conversation j s)
            else get_conversation j s)"
proof -
  from assms obtain s1 where
    run: "insert_all clock 0 cid ms (delete_messages cid s) = Inr s1"
    and s': "s' = touch cid (clock (length ms)) s1"
    by (auto simp: replace_messages_def split: sum.splits)
  have "conversations s1 = conversations s"
    using insert_all_conversations [OF run] by (simp add: delete_messages_def)
  then have "get_conversation i s1 = get_conversation i s" for i
    by (simp add: get_conversation_def)
  then show ?thesis
    by (simp add: s' get_conversation_touch)
qed

text \<open>
  Claim C5, as the code has it. Right after \<^verbatim>\<open>create_conversation\<close> the new conversation has
  \<open>updated_at\<close> equal to \<open>created_at\<close>, both the one clock reading. On a conversation that
  exists, \<^verbatim>\<open>append_message\<close>, \<^verbatim>\<open>replace_messages\<close> and \<^verbatim>\<open>update_conversation\<close> leave
  \<open>created_at\<close> as it was and store in \<open>updated_at\<close> the clock reading they take, whatever
  the value before; the first two succeed when the roles are ones the schema accepts. So
  \<open>updated_at\<close> does not decrease exactly when that reading is not earlier than the value
  stored: the code compares nothing.
\<close>

theorem updated_at_is_clock_reading:
  "(\<exists>c0. get_conversation (fst (create_conversation clock t p s))
                 (snd (create_conversation clock t p s)) = Some c0
          \<and> created_at c0 = clock 0 \<and> updated_at c0 = created_at c0)
   \<and> (\<forall>c. get_conversation cid s = Some c \<longrightarrow>
          (\<forall>s'. append_message clock cid r x s = Inr s' \<longrightarrow>
                 get_conversation cid s' = Some (c\<lparr>updated_at := clock 1\<rparr>))
        \<and> (\<forall>s'. replace_messages clock cid ms s = Inr s' \<longrightarrow>
                 get_conversation cid s' = Some (c\<lparr>updated_at := clock (length ms)\<rparr>))
        \<and> (\<exists>c'. get_conversation cid (update_conversation clock cid ttl sp s) = Some c'
                 \<and> created_at c' = created_at c \<and> updated_at c' = clock 0)
        \<and> (r \<in> set ROLES \<longrightarrow> (\<exists>s'. append_message clock cid r x s = Inr s'))
        \<and> ((\<forall>m \<in> set ms. fst m \<in> set ROLES) \<longrightarrow>
              (\<exists>s'. replace_messages clock cid ms s = Inr s')))"
proof (intro conjI allI impI)
  show "\<exists>c0. get_conversation (fst (create_conversation clock t p s))
                 (snd (create_conversation clock t p s)) = Some c0
          \<and> created_at c0 = clock 0 \<and> updated_at c0 = created_at c0"
    by (simp add: get_conversation_create)
next
  fix c s'
  assume "get_conversation cid s = Some c" and "append_message clock cid r x s = Inr s'"
  then show "get_conversation cid s' = Some (c\<lparr>updated_at := clock 1\<rparr>)"
    using get_conversation_append [of clock cid r x s s' cid] by simp
next
  fix c s'
  assume "get_conversation cid s = Some c" and "replace_messages clock cid ms s = Inr s'"
  then show "get_conversation cid s' = Some (c\<lparr>updated_at := clock (length ms)\<rparr>)"
    using get_conversation_replace [of clock cid ms s s' cid] by simp
next
  fix c
  assume "get_conversation cid s = Some c"
  then show "\<exists>c'. get_conversation cid (update_conversation clock cid ttl sp s) = Some c'
                 \<and> created_at c' = created_at c \<and> updated_at c' = clock 0"
    by (simp add: get_conversation_update)
next
  fix c
  assume "get_conversation cid s = Some c" and "r \<in> set ROLES"
  then show "\<exists>s'. append_message clock cid r x s = Inr s'"
    using append_message_ok [of r cid s clock x] by simp
next
  fix c
  assume "get_conversation cid s = Some c" and "\<forall>m \<in> set ms. fst m \<in> set ROLES"
  then show "\<exists>s'. replace_messages clock cid ms s = Inr s'"
    using replace_messages_ok [of cid s ms clock] by auto
qed

text \<open>
  The claim as stated fails: \<^verbatim>\<open>now_iso\<close> reads the wall clock, and an append at a reading
  of 08:00 to a conversation created at 09:00 and updated at 09:30 leaves \<open>updated_at\<close> at
  08:00, below both.
\<close>

theorem updated_at_decreases_counterexample:
  "append_message (\<lambda>_. ''2024-05-01T08:00:00+00:00'') 1 ''user'' ''hi''
     \<lparr>conversations = [\<lparr>conv_id = 1, title = ''t'', system_prompt = [],
                         created_at = ''2024-05-01T09:00:00+00:00'',
                         updated_at = ''2024-05-01T09:30:00+00:00''\<rparr>],
      messages = [], conv_seq = 1, msg_seq = 0\<rparr>
   = Inr \<lparr>conversations = [\<lparr>conv_id = 1, title = ''t'', system_prompt = [],
                             created_at = ''2024-05-01T09:00:00+00:00'',
                             updated_at = ''2024-05-01T08:00:00+00:00''\<rparr>],
          messages = [\<lparr>msg_id = 1, conversation_id = 1, role = ''user'', content = ''hi'',
                        msg_created_at = ''2024-05-01T08:00:00+00:00''\<rparr>],
          conv_seq = 1, msg_seq = 1\<rparr>
   \<and> \<not> (''2024-05-01T09:30:00+00:00'' \<le> (''2024-05-01T08:00:00+00:00'' :: string))
   \<and> \<not> (''2024-05-01T09:00:00+00:00'' \<le> (''2024-05-01T08:00:00+00:00'' :: string))"
  by (simp add: append_message_def insert_message_def ROLES_def get_conversation_def
      next_rowid_def touch_def update_rows_def Let_def)

text \<open>An append at 10:00:00.25 to a conversation last updated at 09:30:00.0005.\<close>

theorem updated_at_is_clock_reading_witness:
  "\<exists>s'. append_message (\<lambda>_. ''2024-05-01T10:00:00.250000+00:00'') 1 ''user'' ''hi''
           \<lparr>conversations = [\<lparr>conv_id = 1, title = ''t'', system_prompt = [],
                               created_at = ''2024-05-01T09:00:00+00:00'',
                               updated_at = ''2024-05-01T09:30:00.000500+00:00''\<rparr>],
            messages = [], conv_seq = 1, msg_seq = 0\<rparr> = Inr s'
      \<and> get_conversation 1 s' =
          Some \<lparr>conv_id = 1, title = ''t'', system_prompt = [],
                created_at = ''2024-05-01T09:00:00+00:00'',
                updated_at = ''2024-05-01T10:00:00.250000+00:00''\<rparr>"
proof -
  define c where "c = \<lparr>conv_id = 1, title = ''t'', system_prompt = [],
                       created_at = ''2024-05-01T09:00:00+00:00'',
                       updated_at = ''2024-05-01T09:30:00.000500+00:00''\<rparr>"
  define s where "s = \<lparr>conversations = [c], messages = [], conv_seq = 1, msg_seq = 0\<rparr>"
  define clock :: clock where "clock = (\<lambda>_. ''2024-05-01T10:00:00.250000+00:00'')"
  have h1: "get_conversation 1 s = Some c"
    by (simp add: s_def c_def get_conversation_def)
  have h2: "''user'' \<in> set ROLES"
    by (simp add: ROLES_def)
  note fact = updated_at_is_clock_reading [of clock "[]" "[]" s 1 "''user''" "''hi''" "[]" None None]
  from fact h1 h2 obtain s' where run: "append_message clock 1 ''user'' ''hi'' s = Inr s'"
    by auto
  with fact h1 have "get_conversation 1 s' = Some (c\<lparr>updated_at := clock 1\<rparr>)"
    by auto
  with run have "\<exists>s'. append_message clock 1 ''user'' ''hi'' s = Inr s'
      \<and> get_conversation 1 s' = Some (c\<lparr>updated_at := clock 1\<rparr>)"
    by auto
  then show ?thesis
    unfolding s_def c_def clock_def by simp
qed

section \<open>Updating a conversation\<close>

text \<open>
  Claim C6. On a conversation that exists, \<^verbatim>\<open>update_conversation\<close> keeps the title when no
  title is given (\<open>None\<close>) and stores the one given otherwise, the empty string included;
  the same for the system prompt. The id, \<open>created_at\<close> and the messages stay as they were,
  and \<open>updated_at\<close> becomes the clock reading in every case, also with neither field given.
  \<^verbatim>\<open>PUT /api/conversations/{id}\<close> calls it with exactly the fields of the body: a key that is
  missing is \<open>None\<close>, a key with a string, empty or not, is that string.
\<close>

theorem update_conversation_frame:
  assumes "get_conversation cid s = Some c"
  shows "(\<exists>c'. get_conversation cid (update_conversation clock cid ttl sp s) = Some c'
           \<and> title c' = (case ttl of None \<Rightarrow> title c | Some t \<Rightarrow> t)
           \<and> system_prompt c' = (case sp of None \<Rightarrow> system_prompt c | Some p \<Rightarrow> p)
           \<and> conv_id c' = conv_id c
           \<and> created_at c' = created_at c
           \<and> updated_at c' = clock 0
           \<and> messages (update_conversation clock cid ttl sp s) = messages s
           \<and> list_messages cid (update_conversation clock cid ttl sp s) = list_messages cid s)
       \<and> (\<forall>rt path kvs.
            startswith path ''/api/conversations/'' \<and> \<not> endswith path ''/messages'' \<and>
            path_id rt path = Some cid \<and>
            map_of kvs ''title'' = map_option JStr ttl \<and>
            map_of kvs ''systemPrompt'' = map_option JStr sp \<longrightarrow>
            do_PUT rt clock path (JsonBody (JObj kvs)) s =
              Inr (Json 200 (JObj [(''conversation'',
                     conversation_json
                       (get_conversation cid (update_conversation clock cid ttl sp s)))]),
                   update_conversation clock cid ttl sp s))"
proof -
  have store: "\<exists>c'. get_conversation cid (update_conversation clock cid ttl sp s) = Some c'
           \<and> title c' = (case ttl of None \<Rightarrow> title c | Some t \<Rightarrow> t)
           \<and> system_prompt c' = (case sp of None \<Rightarrow> system_prompt c | Some p \<Rightarrow> p)
           \<and> conv_id c' = conv_id c
           \<and> created_at c' = created_at c
           \<and> updated_at c' = clock 0
           \<and> messages (update_conversation clock cid ttl sp s) = messages s
           \<and> list_messages cid (update_conversation clock cid ttl sp s) = list_messages cid s"
    using assms by (simp add: get_conversation_update list_messages_def)
  have router: "\<forall>rt path kvs.
            startswith path ''/api/conversations/'' \<and> \<not> endswith path ''/messages'' \<and>
            path_id rt path = Some cid \<and>
            map_of kvs ''title'' = map_option JStr ttl \<and>
            map_of kvs ''systemPrompt'' = map_option JStr sp \<longrightarrow>
            do_PUT rt clock path (JsonBody (JObj kvs)) s =
              Inr (Json 200 (JObj [(''conversation'',
                     conversation_json
                       (get_conversation cid (update_conversation clock cid ttl sp s)))]),
                   update_conversation clock cid ttl sp s)"
    using do_PUT_conversation [OF _ _ _ assms] by blast
  from store router show ?thesis by (rule conjI)
qed

text \<open>A title that is present and empty replaces the old one; the absent prompt is kept.\<close>

theorem update_conversation_frame_witness:
  "\<exists>c'. get_conversation 1
           (update_conversation (\<lambda>k. ''2024-05-01T10:00:00+00:00'') 1 (Some []) None
              \<lparr>conversations = [\<lparr>conv_id = 1, title = ''old'', system_prompt = ''be brief'',
                                  created_at = ''2024-05-01T09:00:00+00:00'',
                                  updated_at = ''2024-05-01T09:00:00+00:00''\<rparr>],
               messages = [], conv_seq = 1, msg_seq = 0\<rparr>) = Some c'
      \<and> title c' = [] \<and> system_prompt c' = ''be brief''
      \<and> created_at c' = ''2024-05-01T09:00:00+00:00''
      \<and> updated_at c' = ''2024-05-01T10:00:00+00:00''"
proof -
  define c where "c = \<lparr>conv_id = 1, title = ''old'', system_prompt = ''be brief'',
                       created_at = ''2024-05-01T09:00:00+00:00'',
                       updated_at = ''2024-05-01T09:00:00+00:00''\<rparr>"
  define s where "s = \<lparr>conversations = [c], messages = [], conv_seq = 1, msg_seq = 0\<rparr>"
  define clock :: clock where "clock = (\<lambda>k. ''2024-05-01T10:00:00+00:00'')"
  have h1: "get_conversation 1 s = Some c"
    by (simp add: s_def c_def get_conversation_def)
  from update_conversation_frame [OF h1, of clock "Some []" None]
  have "\<exists>c'. get_conversation 1 (update_conversation clock 1 (Some []) None s) = Some c'
          \<and> title c' = [] \<and> system_prompt c' = system_prompt c
          \<and> created_at c' = created_at c \<and> updated_at c' = clock 0"
    by auto
  then show ?thesis
    unfolding s_def c_def clock_def by simp
qed

section \<open>Listing the conversations\<close>

text \<open>
  Claim C7. \<^verbatim>\<open>list_conversations\<close> returns one row per conversation (its rows are a
  permutation of the table), ordered by \<open>updated_at\<close> descending, and the count of each row
  is the number of messages of that conversation, 0 when it has none.
\<close>

theorem list_conversations_order_and_counts:
  "mset (map fst (list_conversations s)) = mset (conversations s)
   \<and> length (list_conversations s) = length (conversations s)
   \<and> sorted_wrt (\<lambda>a b. updated_at (fst b) \<le> updated_at (fst a)) (list_conversations s)
   \<and> (\<forall>row \<in> set (list_conversations s).
         snd row = size {#m \<in># mset (messages s). conversation_id m = conv_id (fst row)#}
         \<and> ((\<forall>m \<in> set (messages s). conversation_id m \<noteq> conv_id (fst row)) \<longrightarrow> snd row = 0))"
proof -
  have count: "message_count s cid = size {#m \<in># mset (messages s). conversation_id m = cid#}" for cid
    by (simp add: message_count_def flip: mset_filter)
  have zero: "message_count s cid = 0" if "\<forall>m \<in> set (messages s). conversation_id m \<noteq> cid" for cid
    using that by (simp add: message_count_def filter_empty_conv)
  have "length (list_conversations s) = length (conversations s)"
    by (simp add: list_conversations_def)
  moreover have "\<forall>row \<in> set (list_conversations s).
         snd row = size {#m \<in># mset (messages s). conversation_id m = conv_id (fst row)#}
         \<and> ((\<forall>m \<in> set (messages s). conversation_id m \<noteq> conv_id (fst row)) \<longrightarrow> snd row = 0)"
    using list_conversations_count count zero by metis
  ultimately show ?thesis
    using list_conversations_perm list_conversations_sorted by blast
qed

text \<open>Two conversations: the one updated last comes first and has no message.\<close>

theorem list_conversations_order_and_counts_witness:
  "list_conversations
     \<lparr>conversations = [\<lparr>conv_id = 1, title = ''a'', system_prompt = [],
                         created_at = ''2024-05-01T09:00:00+00:00'',
                         updated_at = ''2024-05-01T09:05:00+00:00''\<rparr>,
                       \<lparr>conv_id = 2, title = ''b'', system_prompt = [],
                         created_at = ''2024-05-01T09:10:00+00:00'',
                         updated_at = ''2024-05-01T09:10:00+00:00''\<rparr>],
      messages = [\<lparr>msg_id = 1, conversation_id = 1, role = ''user'', content = ''hi'',
                    msg_created_at = ''2024-05-01T09:05:00+00:00''\<rparr>],
      conv_seq = 2, msg_seq = 1\<rparr>
   = [(\<lparr>conv_id = 2, title = ''b'', system_prompt = [],
         created_at = ''2024-05-01T09:10:00+00:00'',
         updated_at = ''2024-05-01T09:10:00+00:00''\<rparr>, 0),
      (\<lparr>conv_id = 1, title = ''a'', system_prompt = [],
         created_at = ''2024-05-01T09:00:00+00:00'',
         updated_at = ''2024-05-01T09:05:00+00:00''\<rparr>, 1)]"
proof -
  define c1 where "c1 = \<lparr>conv_id = 1, title = ''a'', system_prompt = [],
                         created_at = ''2024-05-01T09:00:00+00:00'',
                         updated_at = ''2024-05-01T09:05:00+00:00''\<rparr>"
  define c2 where "c2 = \<lparr>conv_id = 2, title = ''b'', system_prompt = [],
                         created_at = ''2024-05-01T09:10:00+00:00'',
                         updated_at = ''2024-05-01T09:10:00+00:00''\<rparr>"
  define m1 where "m1 = \<lparr>msg_id = 1, conversation_id = 1, role = ''user'', content = ''hi'',
                    msg_created_at = ''2024-05-01T09:05:00+00:00''\<rparr>"
  define s where "s = \<lparr>conversations = [c1, c2], messages = [m1], conv_seq = 2, msg_seq = 1\<rparr>"
  have rows: "list_conversations s = [(c2, 0), (c1, 1)]"
    by (simp add: list_conversations_def message_count_def s_def c1_def c2_def m1_def)
  then have mem: "(c2, 0) \<in> set (list_conversations s)"
    by simp
  have none: "\<forall>m \<in> set (messages s). conversation_id m \<noteq> conv_id (fst (c2, 0::nat))"
    by (simp add: s_def c2_def m1_def)
  from list_conversations_order_and_counts [of s] mem none
  have "snd (c2, 0::nat) = size {#m \<in># mset (messages s). conversation_id m = conv_id c2#}"
    by fastforce
  with rows show ?thesis
    unfolding s_def c1_def c2_def m1_def by simp
qed

section \<open>The gateway without a credential\<close>

lemma dict_get_not_object: "\<not> is_object m \<Longrightarrow> dict_get m k d = Inl AttributeError"
  by (cases m) (simp_all add: is_object_def dict_get_def)

lemma is_user_object: "is_user m \<Longrightarrow> is_object m"
  by (cases m) (simp_all add: is_user_def is_object_def)

lemma last_user_scan:
  "last_user xs =
     (if \<forall>m \<in> set (takeWhile (\<lambda>m. \<not> is_user m) xs). is_object m
      then Inr (case filter is_user xs of [] \<Rightarrow> JStr [] | u # _ \<Rightarrow> content_of u)
      else Inl AttributeError)"
proof (induction xs)
  case Nil
  then show ?case by simp
next
  case (Cons m xs)
  show ?case
  proof (cases "is_object m")
    case False
    then have "\<not> is_user m"
      using is_user_object by blast
    with False show ?thesis
      by (simp add: dict_get_not_object)
  next
    case True
    then obtain kvs where m: "m = JObj kvs"
      by (cases m) (simp_all add: is_object_def)
    show ?thesis
    proof (cases "is_user m")
      case True
      then show ?thesis
        using m by (simp add: is_user_def content_of_def)
    next
      case False
      then have "(case map_of kvs ''role'' of None \<Rightarrow> JNull | Some v \<Rightarrow> v) \<noteq> JStr ''user''"
        using m by (auto simp: is_user_def split: option.splits)
      then show ?thesis
        using Cons False m \<open>is_object m\<close> by simp
    qed
  qed
qed

lemma first_user_rev:
  "(case filter is_user (rev msgs) of [] \<Rightarrow> JStr [] | u # _ \<Rightarrow> content_of u) =
   (case most_recent_user msgs of None \<Rightarrow> JStr [] | Some m \<Rightarrow> content_of m)"
proof (cases "filter is_user msgs = []")
  case True
  then show ?thesis
    by (simp add: most_recent_user_def rev_filter [symmetric])
next
  case False
  then obtain ys y where ys: "filter is_user msgs = ys @ [y]"
    by (metis rev_exhaust)
  have "most_recent_user msgs = Some (last (filter is_user msgs))"
    using False by (cases "filter is_user msgs") (simp_all add: most_recent_user_def)
  then show ?thesis
    using ys by (simp add: rev_filter [symmetric])
qed

text \<open>
  Claim C1, as the code has it. With \<^verbatim>\<open>LLM_API_KEY\<close> unset or empty, \<^verbatim>\<open>llm_chat\<close> sends no
  request, whatever the list. When every element after the most recent message whose role
  is \<^verbatim>\<open>"user"\<close> is a JSON object (every element, when no message has that role), it returns
  the fixed prefix followed by the content of that message: the content itself when it is
  a string (the empty string when the message has none), what \<^verbatim>\<open>str()\<close> gives for any other
  value, and nothing after the prefix when there is no such message. Otherwise it raises
  \<^verbatim>\<open>AttributeError\<close>: the loop calls \<^verbatim>\<open>get\<close> on every element it reaches.
\<close>

theorem llm_chat_fallback:
  assumes "LLM_API_KEY ev = None \<or> LLM_API_KEY ev = Some []"
  shows "llm_chat rt ev net msgs =
           ((if \<forall>m \<in> set (takeWhile (\<lambda>m. \<not> is_user m) (rev msgs)). is_object m
             then Inr (JStr (MOCK_PREFIX @
                    (case most_recent_user msgs of
                       None \<Rightarrow> []
                     | Some m \<Rightarrow> (case content_of m of JStr c \<Rightarrow> c | v \<Rightarrow> py_str rt v))))
             else Inl AttributeError),
            [])"
proof -
  have shown: "fmt rt (case most_recent_user msgs of None \<Rightarrow> JStr [] | Some m \<Rightarrow> content_of m) =
          (case most_recent_user msgs of
             None \<Rightarrow> []
           | Some m \<Rightarrow> (case content_of m of JStr c \<Rightarrow> c | v \<Rightarrow> py_str rt v))"
    by (simp add: fmt_def split: option.splits json.splits)
  have scan: "last_user (rev msgs) =
     (if \<forall>m \<in> set (takeWhile (\<lambda>m. \<not> is_user m) (rev msgs)). is_object m
      then Inr (case most_recent_user msgs of None \<Rightarrow> JStr [] | Some m \<Rightarrow> content_of m)
      else Inl AttributeError)"
    by (simp only: last_user_scan [of "rev msgs"] first_user_rev)
  have "llm_chat rt ev net msgs =
          (and_then (last_user (rev msgs)) (\<lambda>lu. Inr (JStr (MOCK_PREFIX @ fmt rt lu))), [])"
    using assms by (auto simp: llm_chat_def Let_def)
  then show ?thesis
    unfolding scan using shown by simp
qed

text \<open>
  The claim as stated fails: the fallback raises on a list that \<^verbatim>\<open>do_POST\<close> lets through,
  a user message followed by a string.
\<close>

theorem llm_chat_fallback_counterexample:
  "llm_chat \<lparr>py_int = (\<lambda>_. None), py_str = (\<lambda>_. []), sqlite_text = (\<lambda>_. Inl BindError)\<rparr>
     \<lparr>LLM_API_KEY = None, LLM_API_URL = None, LLM_MODEL = None\<rparr>
     (\<lambda>_. URLError ''unreachable'')
     [JObj [(''role'', JStr ''user''), (''content'', JStr ''a'')], JStr ''junk'']
   = (Inl AttributeError, [])"
  by (simp add: llm_chat_def Let_def dict_get_def)

text \<open>
  The example of the specification, \<^verbatim>\<open>hello\<close>, here between an element that is not an
  object, which the loop never reaches, and a later message of the assistant.
\<close>

theorem llm_chat_fallback_witness:
  "llm_chat \<lparr>py_int = (\<lambda>_. None), py_str = (\<lambda>_. []), sqlite_text = (\<lambda>_. Inl BindError)\<rparr>
     \<lparr>LLM_API_KEY = None, LLM_API_URL = None, LLM_MODEL = None\<rparr>
     (\<lambda>_. URLError ''unreachable'')
     [JStr ''junk'', JObj [(''role'', JStr ''user''), (''content'', JStr ''hello'')],
      JObj [(''role'', JStr ''assistant'')]]
   = (Inr (JStr ''[mock backend reply] Set LLM_API_KEY to call a real model. Last user message: hello''), [])"
proof -
  define u where "u = JObj [(''role'', JStr ''user''), (''content'', JStr ''hello'')]"
  define a where "a = JObj [(''role'', JStr ''assistant'')]"
  define msgs where "msgs = [JStr ''junk'', u, a]"
  define ev where "ev = \<lparr>LLM_API_KEY = None, LLM_API_URL = None, LLM_MODEL = None\<rparr>"
  define rt where "rt = \<lparr>py_int = (\<lambda>_. None :: int option), py_str = (\<lambda>_. []),
                         sqlite_text = (\<lambda>_. Inl BindError)\<rparr>"
  define net :: "http_request \<Rightarrow> upstream" where "net = (\<lambda>_. URLError ''unreachable'')"
  have h1: "LLM_API_KEY ev = None \<or> LLM_API_KEY ev = Some []"
    by (simp add: ev_def)
  have usr: "is_user u" "\<not> is_user a" "\<not> is_user (JStr ''junk'')" "is_object a"
    by (simp_all add: u_def a_def is_user_def is_object_def)
  have h2: "\<forall>m \<in> set (takeWhile (\<lambda>m. \<not> is_user m) (rev msgs)). is_object m"
    using usr by (simp add: msgs_def)
  have mr: "most_recent_user msgs = Some u"
    using usr by (simp add: most_recent_user_def msgs_def)
  from llm_chat_fallback [OF h1, of rt net msgs] h2 mr
  have "llm_chat rt ev net msgs = (Inr (JStr (MOCK_PREFIX @ ''hello'')), [])"
    by (simp add: content_of_def u_def)
  then show ?thesis
    unfolding msgs_def u_def a_def ev_def rt_def net_def by (simp add: MOCK_PREFIX_def)
qed

section \<open>The gateway with a credential\<close>






section \<open>Routing of the messages path\<close>

lemma path_id_segment3:
  assumes "is_messages_path p"
  shows "path_id rt p = py_int rt (segment3 p)"
  using assms index_third_segment [of p]
  by (simp add: is_messages_path_def path_id_def segment3_def)

text \<open>
  Claim C9. A conversation-messages route is recognised by its prefix
  \<^verbatim>\<open>/api/conversations/\<close> and its suffix \<^verbatim>\<open>/messages\<close> alone, and the conversation id
  is read from the third path segment. For every such path the third segment is what stands
  between the prefix and the next slash, whatever follows it; the three handlers answer from
  that segment alone: 400 when it is not an integer, 404 (or an uncaught OverflowError for an
  integer SQLite cannot bind) when no conversation has that id, and otherwise the messages of
  exactly that conversation (GET), the append to it (POST) or the replacement of its messages
  (PUT). Two such paths with the same third segment are therefore served identically, so
  \<^verbatim>\<open>/api/conversations/5/anything/messages\<close> is served as the messages route of
  conversation 5.
\<close>

theorem messages_route_third_segment:
  assumes "is_messages_path p"
  shows "index (split_slash p) 3 = Inr (segment3 p)
       \<and> do_GET rt p s =
           (case py_int rt (segment3 p) of
              None \<Rightarrow> Inr (Json 400 (error_json ''invalid conversation id''))
            | Some cid \<Rightarrow>
                (case get_conversation cid s of
                   None \<Rightarrow>
                     if sqlite_int cid
                     then Inr (Json 404 (error_json ''conversation not found''))
                     else Inl OverflowError
                 | Some _ \<Rightarrow>
                     Inr (Json 200 (JObj [(''messages'',
                                           JArr (map message_json (list_messages cid s)))]))))
       \<and> do_POST rt ev net clock p b s =
           (case py_int rt (segment3 p) of
              None \<Rightarrow> Inr (Json 400 (error_json ''invalid conversation id''), s)
            | Some cid \<Rightarrow>
                (case get_conversation cid s of
                   None \<Rightarrow>
                     if sqlite_int cid
                     then Inr (Json 404 (error_json ''conversation not found''), s)
                     else Inl OverflowError
                 | Some _ \<Rightarrow> post_message rt clock cid b s))
       \<and> do_PUT rt clock p b s =
           (case py_int rt (segment3 p) of
              None \<Rightarrow> Inr (Json 400 (error_json ''invalid conversation id''), s)
            | Some cid \<Rightarrow>
                (case get_conversation cid s of
                   None \<Rightarrow>
                     if sqlite_int cid
                     then Inr (Json 404 (error_json ''conversation not found''), s)
                     else Inl OverflowError
                 | Some _ \<Rightarrow> put_messages rt clock cid b s))
       \<and> (\<forall>q. is_messages_path q \<and> segment3 q = segment3 p \<longrightarrow>
              do_GET rt q s = do_GET rt p s
            \<and> do_POST rt ev net clock q b s = do_POST rt ev net clock p b s
            \<and> do_PUT rt clock q b s = do_PUT rt clock p b s)"
proof -
  have seg: "index (split_slash p) 3 = Inr (segment3 p)"
    using assms by (simp add: is_messages_path_def index_third_segment segment3_def)
  have get: "do_GET rt q s =
           (case py_int rt (segment3 q) of
              None \<Rightarrow> Inr (Json 400 (error_json ''invalid conversation id''))
            | Some cid \<Rightarrow>
                (case get_conversation cid s of
                   None \<Rightarrow>
                     if sqlite_int cid
                     then Inr (Json 404 (error_json ''conversation not found''))
                     else Inl OverflowError
                 | Some _ \<Rightarrow>
                     Inr (Json 200 (JObj [(''messages'',
                                           JArr (map message_json (list_messages cid s)))]))))"
    if "is_messages_path q" for q
    by (simp only: do_GET_messages [OF that] path_id_segment3 [OF that])
  have post: "do_POST rt ev net clock q b s =
           (case py_int rt (segment3 q) of
              None \<Rightarrow> Inr (Json 400 (error_json ''invalid conversation id''), s)
            | Some cid \<Rightarrow>
                (case get_conversation cid s of
                   None \<Rightarrow>
                     if sqlite_int cid
                     then Inr (Json 404 (error_json ''conversation not found''), s)
                     else Inl OverflowError
                 | Some _ \<Rightarrow> post_message rt clock cid b s))"
    if "is_messages_path q" for q
    by (simp only: do_POST_messages [OF that] with_conversation_def path_id_segment3 [OF that])
  have put: "do_PUT rt clock q b s =
           (case py_int rt (segment3 q) of
              None \<Rightarrow> Inr (Json 400 (error_json ''invalid conversation id''), s)
            | Some cid \<Rightarrow>
                (case get_conversation cid s of
                   None \<Rightarrow>
                     if sqlite_int cid
                     then Inr (Json 404 (error_json ''conversation not found''), s)
                     else Inl OverflowError
                 | Some _ \<Rightarrow> put_messages rt clock cid b s))"
    if "is_messages_path q" for q
    by (simp only: do_PUT_messages [OF that] with_conversation_def path_id_segment3 [OF that])
  have same: "\<forall>q. is_messages_path q \<and> segment3 q = segment3 p \<longrightarrow>
              do_GET rt q s = do_GET rt p s
            \<and> do_POST rt ev net clock q b s = do_POST rt ev net clock p b s
            \<and> do_PUT rt clock q b s = do_PUT rt clock p b s"
    using get post put assms by simp
  from seg get [OF assms] post [OF assms] put [OF assms] same show ?thesis
    by (intro conjI)
qed

theorem messages_route_third_segment_witness:
  "do_GET \<lparr>py_int = (\<lambda>x. if x = ''5'' then Some 5 else None), py_str = (\<lambda>_. []),
           sqlite_text = (\<lambda>_. Inl BindError)\<rparr>
     ''/api/conversations/5/anything/messages''
     \<lparr>conversations = [\<lparr>conv_id = 5, title = ''t'', system_prompt = [],
                         created_at = ''2024-05-01T09:00:00+00:00'',
                         updated_at = ''2024-05-01T09:00:00+00:00''\<rparr>],
      messages = [\<lparr>msg_id = 7, conversation_id = 5, role = ''user'', content = ''hi'',
                    msg_created_at = ''2024-05-01T09:00:00+00:00''\<rparr>],
      conv_seq = 5, msg_seq = 7\<rparr>
   = Inr (Json 200 (JObj [(''messages'',
            JArr [JObj [(''id'', JInt 7), (''role'', JStr ''user''), (''content'', JStr ''hi''),
                        (''created_at'', JStr ''2024-05-01T09:00:00+00:00'')]])]))
   \<and> do_GET \<lparr>py_int = (\<lambda>x. if x = ''5'' then Some 5 else None), py_str = (\<lambda>_. []),
           sqlite_text = (\<lambda>_. Inl BindError)\<rparr>
     ''/api/conversations/5/messages''
     \<lparr>conversations = [\<lparr>conv_id = 5, title = ''t'', system_prompt = [],
                         created_at = ''2024-05-01T09:00:00+00:00'',
                         updated_at = ''2024-05-01T09:00:00+00:00''\<rparr>],
      messages = [\<lparr>msg_id = 7, conversation_id = 5, role = ''user'', content = ''hi'',
                    msg_created_at = ''2024-05-01T09:00:00+00:00''\<rparr>],
      conv_seq = 5, msg_seq = 7\<rparr>
   = Inr (Json 200 (JObj [(''messages'',
            JArr [JObj [(''id'', JInt 7), (''role'', JStr ''user''), (''content'', JStr ''hi''),
                        (''created_at'', JStr ''2024-05-01T09:00:00+00:00'')]])]))"
proof -
  define rt where "rt = \<lparr>py_int = (\<lambda>x. if x = ''5'' then Some (5::int) else None),
                         py_str = (\<lambda>_. []), sqlite_text = (\<lambda>_. Inl BindError)\<rparr>"
  define s where "s = \<lparr>conversations = [\<lparr>conv_id = 5, title = ''t'', system_prompt = [],
                         created_at = ''2024-05-01T09:00:00+00:00'',
                         updated_at = ''2024-05-01T09:00:00+00:00''\<rparr>],
      messages = [\<lparr>msg_id = 7, conversation_id = 5, role = ''user'', content = ''hi'',
                    msg_created_at = ''2024-05-01T09:00:00+00:00''\<rparr>],
      conv_seq = 5, msg_seq = 7\<rparr>"
  define p where "p = ''/api/conversations/5/anything/messages''"
  define q where "q = ''/api/conversations/5/messages''"
  define ev where "ev = \<lparr>LLM_API_KEY = None, LLM_API_URL = None, LLM_MODEL = None\<rparr>"
  define net :: "http_request \<Rightarrow> upstream" where "net = (\<lambda>_. URLError ''unreachable'')"
  define clock :: clock where "clock = (\<lambda>_. ''2024-05-01T10:00:00+00:00'')"
  have h1: "is_messages_path p"
    by (simp add: p_def is_messages_path_def startswith_def endswith_def)
  have h2: "is_messages_path q"
    by (simp add: q_def is_messages_path_def startswith_def endswith_def)
  have sp: "segment3 p = ''5''"
    by (simp add: p_def segment3_def)
  have sq: "segment3 q = segment3 p"
    by (simp add: p_def q_def segment3_def)
  note fact = messages_route_third_segment [OF h1, of rt s ev net clock NoBody]
  have a: "do_GET rt p s = Inr (Json 200 (JObj [(''messages'',
            JArr [JObj [(''id'', JInt 7), (''role'', JStr ''user''), (''content'', JStr ''hi''),
                        (''created_at'', JStr ''2024-05-01T09:00:00+00:00'')]])]))"
    using fact
    by (simp add: sp rt_def s_def get_conversation_def list_messages_def message_json_def)
  have b: "do_GET rt q s = do_GET rt p s"
    using fact h2 sq by blast
  from a b show ?thesis
    unfolding rt_def s_def p_def q_def by simp
qed

section \<open>The role check of the message routes\<close>

lemma role_not_in_unhashable: "\<not> hashable v \<Longrightarrow> role_not_in v = Inl TypeError"
  by (cases v) (simp_all add: hashable_def role_not_in_def)

lemma clean_unhashable:
  assumes "\<forall>m \<in> set pre. is_object m \<and> accepted_role (role_of m)"
    and "is_object bad" and "\<not> hashable (role_of bad)"
  shows "clean (pre @ bad # post) = Inl TypeError"
  using assms(1)
proof (induction pre)
  case Nil
  show ?case
    using assms(2) by (simp only: append_Nil clean_step role_not_in_unhashable [OF assms(3)]) simp
next
  case (Cons m pre)
  then have m: "is_object m" "accepted_role (role_of m)" and
    rest: "clean (pre @ bad # post) = Inl TypeError"
    by simp_all
  show ?case
    using m rest by (simp only: append_Cons clean_step role_not_in_accepted) simp
qed

text \<open>
  What the role check does, for a conversation that exists. A \<^verbatim>\<open>POST .../messages\<close> whose body
  is an object (or absent) with a role that is missing, or is a string, number, boolean or
  null other than the three accepted strings, is answered with 400 and the store it leaves is
  the store it found; so is a \<^verbatim>\<open>PUT .../messages\<close> whose list has a message with such a
  role, the messages before it being objects with accepted roles. When the role is a JSON
  array or object, the membership test \<^verbatim>\<open>role not in {...}\<close> raises \<^verbatim>\<open>TypeError\<close> instead, in
  both handlers, and no response is sent. Whatever the body, a \<^verbatim>\<open>POST\<close> that does not answer
  201 and a \<^verbatim>\<open>PUT\<close> that does not answer 200 leave the store as it was.
\<close>

lemma role_check_exact:
  assumes "is_messages_path path"
    and "path_id rt path = Some cid"
    and "get_conversation cid s = Some c"
  shows "(\<forall>b kvs. (b = JsonBody (JObj kvs) \<or> b = NoBody \<and> kvs = []) \<and>
            \<not> accepted_role (role_of (JObj kvs)) \<longrightarrow>
            do_POST rt ev net clock path b s =
              (if hashable (role_of (JObj kvs))
               then Inr (Json 400 (error_json ''invalid role''), s)
               else Inl TypeError))
       \<and> (\<forall>kvs pre bad post.
            map_of kvs ''messages'' = Some (JArr (pre @ bad # post)) \<and>
            (\<forall>m \<in> set pre. is_object m \<and> accepted_role (role_of m)) \<and>
            is_object bad \<and> \<not> accepted_role (role_of bad) \<longrightarrow>
            do_PUT rt clock path (JsonBody (JObj kvs)) s =
              (if hashable (role_of bad)
               then Inr (Json 400 (error_json ''invalid role in messages''), s)
               else Inl TypeError))
       \<and> (\<forall>b r s'. do_POST rt ev net clock path b s = Inr (r, s') \<and> r \<noteq> Json 201 ok_json
            \<longrightarrow> s' = s)
       \<and> (\<forall>b r s'. do_PUT rt clock path b s = Inr (r, s') \<and> r \<noteq> Json 200 ok_json
            \<longrightarrow> s' = s)"
proof -
  have post: "do_POST rt ev net clock path b s =
              (if hashable (role_of (JObj kvs))
               then Inr (Json 400 (error_json ''invalid role''), s)
               else Inl TypeError)"
    if "b = JsonBody (JObj kvs) \<or> b = NoBody \<and> kvs = []"
      and "\<not> accepted_role (role_of (JObj kvs))"
    for b kvs
  proof -
    have body: "read_json b = Inr (JObj kvs)"
      using that(1) by (auto simp: read_json_def)
    have role: "dict_get (JObj kvs) ''role'' JNull = Inr (role_of (JObj kvs))"
      by (simp add: role_of_def)
    have content: "\<exists>v. dict_get (JObj kvs) ''content'' (JStr []) = Inr v"
      by (simp split: option.splits)
    then obtain v where v: "dict_get (JObj kvs) ''content'' (JStr []) = Inr v" ..
    show ?thesis
    proof (cases "hashable (role_of (JObj kvs))")
      case True
      then show ?thesis
        unfolding do_POST_messages [OF assms(1)] with_conversation_found [OF assms(2,3)]
          post_message_def
        by (simp only: body role v and_then_Inr role_not_in_hashable [OF True] that(2)) simp
    next
      case False
      then show ?thesis
        unfolding do_POST_messages [OF assms(1)] with_conversation_found [OF assms(2,3)]
          post_message_def
        by (simp only: body role v and_then_Inr role_not_in_unhashable [OF False]) simp
    qed
  qed
  have put: "do_PUT rt clock path (JsonBody (JObj kvs)) s =
              (if hashable (role_of bad)
               then Inr (Json 400 (error_json ''invalid role in messages''), s)
               else Inl TypeError)"
    if "map_of kvs ''messages'' = Some (JArr (pre @ bad # post))"
      and "\<forall>m \<in> set pre. is_object m \<and> accepted_role (role_of m)"
      and "is_object bad" and "\<not> accepted_role (role_of bad)"
    for kvs pre bad post
  proof (cases "hashable (role_of bad)")
    case True
    have cl: "clean (pre @ bad # post) = Inr None"
      using that(2,3) True that(4) by (rule clean_invalid)
    show ?thesis
      unfolding do_PUT_messages [OF assms(1)] with_conversation_found [OF assms(2,3)]
        put_messages_def
      using that(1) cl True by (simp add: read_json_def)
  next
    case False
    have cl: "clean (pre @ bad # post) = Inl TypeError"
      using that(2,3) False by (rule clean_unhashable)
    show ?thesis
      unfolding do_PUT_messages [OF assms(1)] with_conversation_found [OF assms(2,3)]
        put_messages_def
      using that(1) cl False by (simp add: read_json_def)
  qed
  have fpost: "\<forall>b r s'. do_POST rt ev net clock path b s = Inr (r, s') \<and> r \<noteq> Json 201 ok_json
            \<longrightarrow> s' = s"
    using do_POST_messages_frame [OF assms(1)] by blast
  have fput: "\<forall>b r s'. do_PUT rt clock path b s = Inr (r, s') \<and> r \<noteq> Json 200 ok_json
            \<longrightarrow> s' = s"
    using do_PUT_messages_frame [OF assms(1)] by blast
  have p1: "\<forall>b kvs. (b = JsonBody (JObj kvs) \<or> b = NoBody \<and> kvs = []) \<and>
            \<not> accepted_role (role_of (JObj kvs)) \<longrightarrow>
            do_POST rt ev net clock path b s =
              (if hashable (role_of (JObj kvs))
               then Inr (Json 400 (error_json ''invalid role''), s)
               else Inl TypeError)"
    using post by blast
  have p2: "\<forall>kvs pre bad post.
            map_of kvs ''messages'' = Some (JArr (pre @ bad # post)) \<and>
            (\<forall>m \<in> set pre. is_object m \<and> accepted_role (role_of m)) \<and>
            is_object bad \<and> \<not> accepted_role (role_of bad) \<longrightarrow>
            do_PUT rt clock path (JsonBody (JObj kvs)) s =
              (if hashable (role_of bad)
               then Inr (Json 400 (error_json ''invalid role in messages''), s)
               else Inl TypeError)"
    using put by blast
  from p1 p2 fpost fput show ?thesis
    by (intro conjI)
qed

text \<open>
  Claim C3. The claim is that, for every existing conversation, a \<^verbatim>\<open>POST .../messages\<close> whose
  role is not one of user, assistant, system, and a \<^verbatim>\<open>PUT .../messages\<close> with such a message,
  are rejected with 400 and leave the store as it was. The handlers do test the role, but with
  a set membership test, which raises \<^verbatim>\<open>TypeError\<close> for a role that is a JSON array or object:
  on conversation 1, which exists, the \<^verbatim>\<open>POST\<close> with body \<^verbatim>\<open>{"role": ["user"], "content": "x"}\<close>
  and the \<^verbatim>\<open>PUT\<close> with body \<^verbatim>\<open>{"messages": [{"role": {"a": 1}, "content": "x"}]}\<close> both end
  in an uncaught \<^verbatim>\<open>TypeError\<close>, so no 400 is answered, while the \<^verbatim>\<open>POST\<close> with the role
  \<^verbatim>\<open>bogus\<close> on the same store is answered with 400 and leaves the store unchanged.
\<close>

theorem unhashable_role_raises:
  "do_POST \<lparr>py_int = (\<lambda>x. if x = ''1'' then Some 1 else None), py_str = (\<lambda>_. []),
            sqlite_text = (\<lambda>_. Inl BindError)\<rparr>
     \<lparr>LLM_API_KEY = None, LLM_API_URL = None, LLM_MODEL = None\<rparr>
     (\<lambda>_. URLError ''unreachable'')
     (\<lambda>_. ''2024-05-01T10:00:00+00:00'')
     ''/api/conversations/1/messages''
     (JsonBody (JObj [(''role'', JArr [JStr ''user'']), (''content'', JStr ''x'')]))
     \<lparr>conversations = [\<lparr>conv_id = 1, title = ''t'', system_prompt = [],
                         created_at = ''2024-05-01T09:00:00+00:00'',
                         updated_at = ''2024-05-01T09:00:00+00:00''\<rparr>],
      messages = [\<lparr>msg_id = 1, conversation_id = 1, role = ''user'', content = ''old'',
                    msg_created_at = ''2024-05-01T09:00:00+00:00''\<rparr>],
      conv_seq = 1, msg_seq = 1\<rparr>
   = Inl TypeError
   \<and> do_PUT \<lparr>py_int = (\<lambda>x. if x = ''1'' then Some 1 else None), py_str = (\<lambda>_. []),
            sqlite_text = (\<lambda>_. Inl BindError)\<rparr>
     (\<lambda>_. ''2024-05-01T10:00:00+00:00'')
     ''/api/conversations/1/messages''
     (JsonBody (JObj [(''messages'',
        JArr [JObj [(''role'', JObj [(''a'', JInt 1)]), (''content'', JStr ''x'')]])]))
     \<lparr>conversations = [\<lparr>conv_id = 1, title = ''t'', system_prompt = [],
                         created_at = ''2024-05-01T09:00:00+00:00'',
                         updated_at = ''2024-05-01T09:00:00+00:00''\<rparr>],
      messages = [\<lparr>msg_id = 1, conversation_id = 1, role = ''user'', content = ''old'',
                    msg_created_at = ''2024-05-01T09:00:00+00:00''\<rparr>],
      conv_seq = 1, msg_seq = 1\<rparr>
   = Inl TypeError
   \<and> do_POST \<lparr>py_int = (\<lambda>x. if x = ''1'' then Some 1 else None), py_str = (\<lambda>_. []),
            sqlite_text = (\<lambda>_. Inl BindError)\<rparr>
     \<lparr>LLM_API_KEY = None, LLM_API_URL = None, LLM_MODEL = None\<rparr>
     (\<lambda>_. URLError ''unreachable'')
     (\<lambda>_. ''2024-05-01T10:00:00+00:00'')
     ''/api/conversations/1/messages''
     (JsonBody (JObj [(''role'', JStr ''bogus''), (''content'', JStr ''x'')]))
     \<lparr>conversations = [\<lparr>conv_id = 1, title = ''t'', system_prompt = [],
                         created_at = ''2024-05-01T09:00:00+00:00'',
                         updated_at = ''2024-05-01T09:00:00+00:00''\<rparr>],
      messages = [\<lparr>msg_id = 1, conversation_id = 1, role = ''user'', content = ''old'',
                    msg_created_at = ''2024-05-01T09:00:00+00:00''\<rparr>],
      conv_seq = 1, msg_seq = 1\<rparr>
   = Inr (Json 400 (JObj [(''error'', JStr ''invalid role'')]),
          \<lparr>conversations = [\<lparr>conv_id = 1, title = ''t'', system_prompt = [],
                         created_at = ''2024-05-01T09:00:00+00:00'',
                         updated_at = ''2024-05-01T09:00:00+00:00''\<rparr>],
           messages = [\<lparr>msg_id = 1, conversation_id = 1, role = ''user'', content = ''old'',
                    msg_created_at = ''2024-05-01T09:00:00+00:00''\<rparr>],
           conv_seq = 1, msg_seq = 1\<rparr>)"
proof -
  define rt where "rt = \<lparr>py_int = (\<lambda>x. if x = ''1'' then Some (1::int) else None),
                         py_str = (\<lambda>_. []), sqlite_text = (\<lambda>_. Inl BindError)\<rparr>"
  define ev where "ev = \<lparr>LLM_API_KEY = None, LLM_API_URL = None, LLM_MODEL = None\<rparr>"
  define net :: "http_request \<Rightarrow> upstream" where "net = (\<lambda>_. URLError ''unreachable'')"
  define clock :: clock where "clock = (\<lambda>_. ''2024-05-01T10:00:00+00:00'')"
  define path where "path = ''/api/conversations/1/messages''"
  define c where "c = \<lparr>conv_id = 1, title = ''t'', system_prompt = [],
                         created_at = ''2024-05-01T09:00:00+00:00'',
                         updated_at = ''2024-05-01T09:00:00+00:00''\<rparr>"
  define s where "s = \<lparr>conversations = [c],
      messages = [\<lparr>msg_id = 1, conversation_id = 1, role = ''user'', content = ''old'',
                    msg_created_at = ''2024-05-01T09:00:00+00:00''\<rparr>],
      conv_seq = 1, msg_seq = 1\<rparr>"
  define lst where "lst = [(''role'', JArr [JStr ''user'']), (''content'', JStr ''x'')]"
  define obj where "obj = JObj [(''role'', JObj [(''a'', JInt 1)]), (''content'', JStr ''x'')]"
  define bogus where "bogus = [(''role'', JStr ''bogus''), (''content'', JStr ''x'')]"
  have h1: "is_messages_path path"
    by (simp add: path_def is_messages_path_def startswith_def endswith_def)
  have h2: "path_id rt path = Some 1"
    by (simp add: path_def path_id_def split_slash_def index_def rt_def)
  have h3: "get_conversation 1 s = Some c"
    by (simp add: s_def c_def get_conversation_def)
  have r1: "\<not> hashable (role_of (JObj lst))" "\<not> accepted_role (role_of (JObj lst))"
    by (simp_all add: lst_def role_of_def hashable_def accepted_role_def)
  have r2: "\<not> hashable (role_of obj)" "\<not> accepted_role (role_of obj)" "is_object obj"
    by (simp_all add: obj_def role_of_def hashable_def accepted_role_def is_object_def)
  have r3: "hashable (role_of (JObj bogus))" "\<not> accepted_role (role_of (JObj bogus))"
    by (simp_all add: bogus_def role_of_def hashable_def accepted_role_def ROLES_def)
  note fact = role_check_exact [OF h1 h2 h3, of ev net clock]
  have a: "do_POST rt ev net clock path (JsonBody (JObj lst)) s = Inl TypeError"
    using fact r1 by auto
  have "map_of [(''messages'', JArr [obj])] ''messages'' = Some (JArr ([] @ obj # []))"
    by simp
  then have b: "do_PUT rt clock path (JsonBody (JObj [(''messages'', JArr [obj])])) s =
             Inl TypeError"
    using fact r2 by (metis empty_iff list.set(1))
  have d: "do_POST rt ev net clock path (JsonBody (JObj bogus)) s =
             Inr (Json 400 (error_json ''invalid role''), s)"
    using fact r3 by auto
  from a b d show ?thesis
    unfolding rt_def ev_def net_def clock_def path_def s_def c_def lst_def obj_def bogus_def
      error_json_def
    by simp
qed

section \<open>Creating a conversation\<close>



section \<open>A message without content\<close>

text \<open>
  Claim C10. For a conversation that exists: a \<^verbatim>\<open>POST .../messages\<close> with an accepted role
  and no \<^verbatim>\<open>content\<close> is answered with 201 and stores one message whose content is the
  empty string; a \<^verbatim>\<open>PUT .../messages\<close> whose messages are objects with accepted roles and
  a content that is a string or missing is answered with 200, and the conversation then
  lists exactly these roles and contents, the empty string where the content was missing.
\<close>

theorem content_defaults_to_empty:
  assumes "is_messages_path path"
    and "path_id rt path = Some cid"
    and "get_conversation cid s = Some c"
  shows "(\<forall>kvs r. map_of kvs ''role'' = Some (JStr r) \<and> r \<in> set ROLES \<and>
            map_of kvs ''content'' = None \<longrightarrow>
            (\<exists>s' m. do_POST rt ev net clock path (JsonBody (JObj kvs)) s =
                       Inr (Json 201 ok_json, s')
               \<and> messages s' = messages s @ [m]
               \<and> conversation_id m = cid \<and> role m = r \<and> content m = []
               \<and> m \<in> set (list_messages cid s')))
       \<and> (\<forall>kvs msgs. map_of kvs ''messages'' = Some (JArr msgs) \<and>
            (\<forall>m \<in> set msgs. is_object m \<and> accepted_role (role_of m) \<and>
               (\<exists>t. content_of m = JStr t)) \<longrightarrow>
            (\<exists>s'. do_PUT rt clock path (JsonBody (JObj kvs)) s = Inr (Json 200 ok_json, s')
               \<and> map (\<lambda>m. (role m, content m)) (list_messages cid s') =
                   map (\<lambda>j. (text_of (role_of j), text_of (content_of j))) msgs))"
proof -
  have ex: "get_conversation cid s \<noteq> None"
    using assms(3) by simp
  have post: "\<exists>s' m. do_POST rt ev net clock path (JsonBody (JObj kvs)) s =
                       Inr (Json 201 ok_json, s')
               \<and> messages s' = messages s @ [m]
               \<and> conversation_id m = cid \<and> role m = r \<and> content m = []
               \<and> m \<in> set (list_messages cid s')"
    if "map_of kvs ''role'' = Some (JStr r)" and "r \<in> set ROLES"
      and "map_of kvs ''content'' = None" for kvs r
  proof -
    define m where "m = \<lparr>msg_id = next_rowid (msg_seq s) (map msg_id (messages s)),
                         conversation_id = cid, role = r, content = [],
                         msg_created_at = clock 0\<rparr>"
    define s' where "s' = touch cid (clock 1)
                  (s\<lparr>messages := messages s @ [m],
                     msg_seq := next_rowid (msg_seq s) (map msg_id (messages s))\<rparr>)"
    have app: "append_message clock cid r [] s = Inr s'"
      unfolding s'_def m_def by (rule append_message_ok [OF that(2) ex])
    have rn: "role_not_in (JStr r) = Inr False"
      using that(2) by (simp add: role_not_in_def)
    have run: "do_POST rt ev net clock path (JsonBody (JObj kvs)) s = Inr (Json 201 ok_json, s')"
      unfolding do_POST_messages [OF assms(1)] with_conversation_found [OF assms(2,3)]
      using that(1,3) rn app by (simp add: post_message_def read_json_def)
    have "messages s' = messages s @ [m]"
      by (simp add: s'_def)
    moreover have "m \<in> set (list_messages cid s')"
      by (simp add: list_messages_def s'_def m_def)
    moreover have "conversation_id m = cid" "role m = r" "content m = []"
      by (simp_all add: m_def)
    ultimately show ?thesis
      using run by blast
  qed
  have put: "\<exists>s'. do_PUT rt clock path (JsonBody (JObj kvs)) s = Inr (Json 200 ok_json, s')
               \<and> map (\<lambda>m. (role m, content m)) (list_messages cid s') =
                   map (\<lambda>j. (text_of (role_of j), text_of (content_of j))) msgs"
    if "map_of kvs ''messages'' = Some (JArr msgs)"
      and "\<forall>m \<in> set msgs. is_object m \<and> accepted_role (role_of m) \<and>
               (\<exists>t. content_of m = JStr t)" for kvs msgs
  proof -
    define rows where "rows = map (\<lambda>j. (text_of (role_of j), text_of (content_of j))) msgs"
    have cl: "clean msgs = Inr (Some (map (\<lambda>j. (role_of j, content_of j)) msgs))"
      using that(2) by (intro clean_valid) simp
    have bd: "bind_all rt (map (\<lambda>j. (role_of j, content_of j)) msgs) = Inr rows"
      unfolding rows_def using that(2) by (intro bind_all_strings) simp
    have "\<forall>row \<in> set rows. fst row \<in> set ROLES"
    proof
      fix row assume "row \<in> set rows"
      then obtain j where "j \<in> set msgs" "row = (text_of (role_of j), text_of (content_of j))"
        by (auto simp: rows_def)
      moreover from this that(2) obtain r where "role_of j = JStr r" "r \<in> set ROLES"
        using accepted_roleD by blast
      ultimately show "fst row \<in> set ROLES"
        by (simp add: text_of_def)
    qed
    from replace_messages_ok [OF ex this, of clock] obtain s' where
      rep: "replace_messages clock cid rows s = Inr s'"
      and lm: "map (\<lambda>m. (role m, content m)) (list_messages cid s') = rows"
      by blast
    have "do_PUT rt clock path (JsonBody (JObj kvs)) s = Inr (Json 200 ok_json, s')"
      unfolding do_PUT_messages [OF assms(1)] with_conversation_found [OF assms(2,3)]
      using that(1) cl bd rep by (simp add: put_messages_def read_json_def)
    with lm show ?thesis
      unfolding rows_def by blast
  qed
  from post put show ?thesis by blast
qed

text \<open>A \<^verbatim>\<open>PUT\<close> of two messages, the first without content.\<close>

theorem content_defaults_to_empty_witness:
  "\<exists>s'. do_PUT \<lparr>py_int = (\<lambda>x. if x = ''1'' then Some 1 else None), py_str = (\<lambda>_. []),
                sqlite_text = (\<lambda>_. Inl BindError)\<rparr>
           (\<lambda>_. ''2024-05-01T10:00:00+00:00'')
           ''/api/conversations/1/messages''
           (JsonBody (JObj [(''messages'',
              JArr [JObj [(''role'', JStr ''user'')],
                    JObj [(''role'', JStr ''assistant''), (''content'', JStr ''hi'')]])]))
           \<lparr>conversations = [\<lparr>conv_id = 1, title = ''t'', system_prompt = [],
                               created_at = ''2024-05-01T09:00:00+00:00'',
                               updated_at = ''2024-05-01T09:00:00+00:00''\<rparr>],
            messages = [], conv_seq = 1, msg_seq = 0\<rparr>
         = Inr (Json 200 (JObj [(''ok'', JBool True)]), s')
      \<and> map (\<lambda>m. (role m, content m)) (list_messages 1 s')
           = [(''user'', []), (''assistant'', ''hi'')]"
proof -
  define rt where "rt = \<lparr>py_int = (\<lambda>x. if x = ''1'' then Some (1::int) else None),
                         py_str = (\<lambda>_. []), sqlite_text = (\<lambda>_. Inl BindError)\<rparr>"
  define clock :: clock where "clock = (\<lambda>_. ''2024-05-01T10:00:00+00:00'')"
  define path where "path = ''/api/conversations/1/messages''"
  define c where "c = \<lparr>conv_id = 1, title = ''t'', system_prompt = [],
                         created_at = ''2024-05-01T09:00:00+00:00'',
                         updated_at = ''2024-05-01T09:00:00+00:00''\<rparr>"
  define s where "s = \<lparr>conversations = [c], messages = [], conv_seq = 1, msg_seq = 0\<rparr>"
  define m1 where "m1 = JObj [(''role'', JStr ''user'')]"
  define m2 where "m2 = JObj [(''role'', JStr ''assistant''), (''content'', JStr ''hi'')]"
  define kvs where "kvs = [(''messages'', JArr [m1, m2])]"
  have h1: "is_messages_path path"
    by (simp add: path_def is_messages_path_def startswith_def endswith_def)
  have h2: "path_id rt path = Some 1"
    by (simp add: path_def path_id_def split_slash_def index_def rt_def)
  have h3: "get_conversation 1 s = Some c"
    by (simp add: s_def c_def get_conversation_def)
  have k: "map_of kvs ''messages'' = Some (JArr [m1, m2])"
    by (simp add: kvs_def)
  have ms: "\<forall>m \<in> set [m1, m2]. is_object m \<and> accepted_role (role_of m) \<and>
               (\<exists>t. content_of m = JStr t)"
    by (simp add: m1_def m2_def is_object_def accepted_role_def role_of_def content_of_def
        ROLES_def)
  from content_defaults_to_empty
         [OF h1 h2 h3, of "\<lparr>LLM_API_KEY = None, LLM_API_URL = None, LLM_MODEL = None\<rparr>"
            "\<lambda>_. URLError ''unreachable''" clock] k ms
  obtain s' where
    run: "do_PUT rt clock path (JsonBody (JObj kvs)) s = Inr (Json 200 ok_json, s')"
    and lm: "map (\<lambda>m. (role m, content m)) (list_messages 1 s') =
               map (\<lambda>j. (text_of (role_of j), text_of (content_of j))) [m1, m2]"
    by blast
  have "map (\<lambda>j. (text_of (role_of j), text_of (content_of j))) [m1, m2] =
          [(''user'', []), (''assistant'', ''hi'')]"
    by (simp add: m1_def m2_def text_of_def role_of_def content_of_def)
  with run lm have "\<exists>s'. do_PUT rt clock path (JsonBody (JObj kvs)) s = Inr (Json 200 ok_json, s')
      \<and> map (\<lambda>m. (role m, content m)) (list_messages 1 s') = [(''user'', []), (''assistant'', ''hi'')]"
    by auto
  then show ?thesis
    unfolding rt_def clock_def path_def s_def c_def kvs_def m1_def m2_def ok_json_def .
qed

end
